theory Spec2Isabelle
  imports Complex_Main "HOL-Library.AList"
begin

section \<open>Numbers and strings\<close>

text \<open>
  JavaScript numbers are modelled as \<^typ>\<open>real\<close> (times, levels, frequencies) and as
  \<^typ>\<open>int\<close> where the source only handles whole numbers (MIDI notes, octaves, semitones).
  \<open>Math.max\<close> and \<open>Math.min\<close> are \<^const>\<open>max\<close> and \<^const>\<open>min\<close>; \<open>Math.pow(2, x)\<close> is
  \<open>2 powr x\<close>. NaN and the infinities are outside this model. Strings are \<^typ>\<open>string\<close>.
\<close>

subsection \<open>The regular expression of \<open>noteToFrequency\<close>\<close>

text \<open>
  \<open>/^([A-Ga-g][#b]?)(\d+)$/\<close>: one letter, an optional accidental, one or more ASCII
  digits up to the end of the input. The optional group is greedy, so the alternative with
  the accidental is tried first.
\<close>

definition is_digit :: "char \<Rightarrow> bool" where
  "is_digit c \<longleftrightarrow> c \<in> set ''0123456789''"

definition is_note_letter :: "char \<Rightarrow> bool" where
  "is_note_letter c \<longleftrightarrow> c \<in> set ''ABCDEFGabcdefg''"

definition is_accidental :: "char \<Rightarrow> bool" where
  "is_accidental c \<longleftrightarrow> c = CHR ''#'' \<or> c = CHR ''b''"

definition digits :: "string \<Rightarrow> bool" where
  "digits ds \<longleftrightarrow> ds \<noteq> [] \<and> list_all is_digit ds"

definition note_match :: "string \<Rightarrow> (string \<times> string) option" where
  "note_match note =
     (case note of
        [] \<Rightarrow> None
      | c # cs \<Rightarrow>
          if \<not> is_note_letter c then None
          else (case cs of
                  [] \<Rightarrow> None
                | a # ds \<Rightarrow>
                    if is_accidental a \<and> digits ds then Some ([c, a], ds)
                    else if digits cs then Some ([c], cs)
                    else None))"

text \<open>\<open>charAt(0).toUpperCase()\<close> on an ASCII character.\<close>

definition toUpperCase_char :: "char \<Rightarrow> char" where
  "toUpperCase_char c =
     (case map_of (zip ''abcdefghijklmnopqrstuvwxyz'' ''ABCDEFGHIJKLMNOPQRSTUVWXYZ'') c of
        Some u \<Rightarrow> u
      | None \<Rightarrow> c)"

definition digit_value :: "char \<Rightarrow> int" where
  "digit_value c =
     (case map_of (zip ''0123456789'' [0, 1, 2, 3, 4, 5, 6, 7, 8, 9]) c of
        Some d \<Rightarrow> d
      | None \<Rightarrow> 0)"

text \<open>\<open>parseInt(ds, 10)\<close> on a string of decimal digits.\<close>

definition parseInt :: "string \<Rightarrow> int" where
  "parseInt ds = fold (\<lambda>c n. 10 * n + digit_value c) ds 0"

text \<open>The decimal text of a whole number, as a template literal prints it.\<close>

fun digits_of_nat :: "nat \<Rightarrow> string" where
  "digits_of_nat n =
     (if n < 10 then [''0123456789'' ! n]
      else digits_of_nat (n div 10) @ [''0123456789'' ! (n mod 10)])"

declare digits_of_nat.simps [simp del]

definition number_to_string :: "int \<Rightarrow> string" where
  "number_to_string i =
     (if i < 0 then CHR ''-'' # digits_of_nat (nat (- i)) else digits_of_nat (nat i))"

text \<open>The remainder operator \<open>%\<close> takes the sign of the dividend.\<close>

definition js_rem :: "int \<Rightarrow> int \<Rightarrow> int" where
  "js_rem a b = (if a < 0 then - ((- a) mod b) else a mod b)"

section \<open>AudioEngine: frequency conversion\<close>

datatype warning = InvalidNoteFormat string | UnknownNote string

definition notes_table :: "(string \<times> int) list" where
  "notes_table =
     [(''C'', 0), (''C#'', 1), (''Db'', 1), (''D'', 2), (''D#'', 3), (''Eb'', 3),
      (''E'', 4), (''F'', 5), (''F#'', 6), (''Gb'', 6), (''G'', 7), (''G#'', 8),
      (''Ab'', 8), (''A'', 9), (''A#'', 10), (''Bb'', 10), (''B'', 11)]"

text \<open>
  \<open>noteToFrequency\<close> returns the frequency together with what it passes to
  \<open>console.warn\<close>. It has no failing branch: every input string yields a value.
\<close>

definition noteToFrequency :: "string \<Rightarrow> real \<times> warning list" where
  "noteToFrequency note =
     (case note_match note of
        None \<Rightarrow> (440, [InvalidNoteFormat note])
      | Some (m1, m2) \<Rightarrow>
          let noteName = toUpperCase_char (hd m1) # tl m1;
              octave = parseInt m2
          in (case map_of notes_table noteName of
                None \<Rightarrow> (440, [UnknownNote noteName])
              | Some semitone \<Rightarrow>
                  let semitonesFromA4 = semitone - 9 + (octave - 4) * 12
                  in (440 * 2 powr (real_of_int semitonesFromA4 / 12), [])))"

definition midiToFrequency :: "int \<Rightarrow> real" where
  "midiToFrequency midiNote = 440 * 2 powr ((real_of_int midiNote - 69) / 12)"

definition noteNames :: "string list" where
  "noteNames =
     [''C'', ''C#'', ''D'', ''D#'', ''E'', ''F'', ''F#'', ''G'', ''G#'', ''A'', ''A#'', ''B'']"

text \<open>
  \<open>midiToNote\<close>: an index outside the array reads \<open>undefined\<close>, which the template
  literal prints as the text \<open>undefined\<close>.
\<close>

definition midiToNote :: "int \<Rightarrow> string" where
  "midiToNote midiNote =
     (let octave = midiNote div 12 - 1;
          i = js_rem midiNote 12;
          noteName = (if 0 \<le> i \<and> i < 12 then noteNames ! nat i else ''undefined'')
      in noteName @ number_to_string octave)"

section \<open>The audio processing substrate\<close>

text \<open>
  The Web Audio graph is opaque to the engine. The model keeps what the engine hands to
  it: the nodes it creates, the intrinsic value of each parameter (what an assignment to
  \<open>.value\<close> or a \<open>create\<close> call stores), and the log of calls in program order.
  The persistent nodes of the constructor are constructors of \<open>node\<close>; the nodes of a
  voice are numbered in the order of their creation.
\<close>

datatype WaveformType = sine | square | sawtooth | triangle

datatype FilterType = lowpass | highpass | bandpass

datatype osc_key = osc1 | osc2 | osc3

datatype node =
    VoiceNode nat
  | MixerNode osc_key
  | Limiter
  | MasterVolume
  | Output
  | Speakers
  | NoiseSource
  | NoiseFilter
  | NoiseLevel
  | NoiseGate
  | LFO
  | LFOPitchGain
  | LFOFilterGain

datatype AudioParam = Gain node | Frequency node | Detune node | QValue node

datatype audio_call =
    CreateOscillator node real WaveformType
  | CreateGain node real
  | CreateFilter node FilterType real real
  | Connect node node
  | ConnectParam node AudioParam
  | Start node "real option"
  | Stop node real
  | CancelScheduledValues AudioParam real
  | SetValueAtTime AudioParam real real
  | ExponentialRampToValueAtTime AudioParam real real
  | LinearRampToValueAtTime AudioParam real real
  | CreateCompressor node
  | CreateNoise node
  | SetOscillatorType node WaveformType

text \<open>
  What a call reads from the substrate: the context's clock, and the present value of a
  parameter that is under automation (\<open>param.value\<close>), which the substrate computes.
\<close>

record Env =
  currentTime :: real
  paramValue :: "AudioParam \<Rightarrow> real"

fun assign :: "(AudioParam \<times> real) list \<Rightarrow> (AudioParam \<Rightarrow> real) \<Rightarrow> (AudioParam \<Rightarrow> real)" where
  "assign [] f = f"
| "assign ((p, v) # as) f = assign as (f(p := v))"

section \<open>Envelope\<close>

record EnvelopeOptions =
  attack :: real
  decay :: real
  sustain :: real
  release :: real
  startLevel :: "real option"
  maxLevel :: "real option"

record Envelope =
  env_attack :: real
  env_decay :: real
  env_sustain :: real
  env_release :: real
  env_startLevel :: real
  env_maxLevel :: real
  param :: "AudioParam option"
  releaseStartTime :: real

text \<open>The nullish coalescing operator \<open>??\<close>.\<close>

definition nullish :: "'a option \<Rightarrow> 'a \<Rightarrow> 'a" where
  "nullish x d = (case x of Some v \<Rightarrow> v | None \<Rightarrow> d)"

definition Envelope_new :: "'a EnvelopeOptions_scheme \<Rightarrow> Envelope" where
  "Envelope_new options =
     \<lparr>env_attack = attack options,
      env_decay = decay options,
      env_sustain = sustain options,
      env_release = release options,
      env_startLevel = nullish (startLevel options) 0,
      env_maxLevel = nullish (maxLevel options) 1,
      param = None,
      releaseStartTime = 0\<rparr>"

definition connect :: "AudioParam \<Rightarrow> Envelope \<Rightarrow> Envelope" where
  "connect p env = env\<lparr>param := Some p\<rparr>"

definition trigger :: "Env \<Rightarrow> real option \<Rightarrow> Envelope \<Rightarrow> audio_call list" where
  "trigger e startTime env =
     (case param env of
        None \<Rightarrow> []
      | Some p \<Rightarrow>
          let now = max (nullish startTime (currentTime e)) (currentTime e);
              attackTime = max (env_attack env) (1 / 1000);
              decayTime = max (env_decay env) (1 / 1000);
              safeStartLevel = max (env_startLevel env) (1 / 10000);
              safeMaxLevel = max (env_maxLevel env) (1 / 10000);
              safeSustain = max (env_sustain env) (1 / 10000)
          in [CancelScheduledValues p now,
              SetValueAtTime p safeStartLevel now,
              ExponentialRampToValueAtTime p safeMaxLevel (now + attackTime),
              ExponentialRampToValueAtTime p safeSustain (now + attackTime + decayTime)])"

definition triggerRelease :: "Env \<Rightarrow> real option \<Rightarrow> Envelope \<Rightarrow> Envelope \<times> audio_call list" where
  "triggerRelease e releaseTime env =
     (case param env of
        None \<Rightarrow> (env, [])
      | Some p \<Rightarrow>
          let now = max (nullish releaseTime (currentTime e)) (currentTime e);
              releaseTime' = max (env_release env) (1 / 1000);
              safeStartLevel = max (env_startLevel env) (1 / 10000);
              currentValue = max (paramValue e p) (1 / 10000)
          in (env\<lparr>releaseStartTime := now\<rparr>,
              [CancelScheduledValues p now,
               SetValueAtTime p currentValue now,
               ExponentialRampToValueAtTime p safeStartLevel (now + releaseTime')]))"

definition getEndTime :: "real option \<Rightarrow> Envelope \<Rightarrow> real" where
  "getEndTime releaseTime env = nullish releaseTime (releaseStartTime env) + env_release env"

record PartialEnvelopeOptions =
  p_attack :: "real option"
  p_decay :: "real option"
  p_sustain :: "real option"
  p_release :: "real option"
  p_startLevel :: "real option"
  p_maxLevel :: "real option"

definition update :: "PartialEnvelopeOptions \<Rightarrow> Envelope \<Rightarrow> Envelope" where
  "update options env =
     env\<lparr>env_attack := nullish (p_attack options) (env_attack env),
         env_decay := nullish (p_decay options) (env_decay env),
         env_sustain := nullish (p_sustain options) (env_sustain env),
         env_release := nullish (p_release options) (env_release env),
         env_startLevel := nullish (p_startLevel options) (env_startLevel env),
         env_maxLevel := nullish (p_maxLevel options) (env_maxLevel env)\<rparr>"

text \<open>A sequence of calls on one envelope, each with what the substrate reports then.\<close>

datatype envelope_call =
    CallConnect AudioParam
  | CallTrigger "real option"
  | CallTriggerRelease "real option"
  | CallUpdate PartialEnvelopeOptions

fun envelope_step :: "Env \<times> envelope_call \<Rightarrow> Envelope \<times> audio_call list \<Rightarrow> Envelope \<times> audio_call list" where
  "envelope_step (e, CallConnect p) (env, out) = (connect p env, out)"
| "envelope_step (e, CallTrigger t) (env, out) = (env, out @ trigger e t env)"
| "envelope_step (e, CallTriggerRelease t) (env, out) =
     (fst (triggerRelease e t env), out @ snd (triggerRelease e t env))"
| "envelope_step (e, CallUpdate options) (env, out) = (update options env, out)"

definition envelope_run :: "(Env \<times> envelope_call) list \<Rightarrow> Envelope \<Rightarrow> Envelope \<times> audio_call list" where
  "envelope_run cs env = fold envelope_step cs (env, [])"

section \<open>Synth\<close>

record OscillatorSettings =
  osc_range :: real
  waveform :: WaveformType
  detune :: real

record MixerChannel =
  volume :: real
  active :: bool

record FilterEnvelopeSettings = EnvelopeOptions +
  Q :: real
  cutoffFrequency :: real
  contour :: real
  filterType :: FilterType

record LFOSettings =
  lfo_waveform :: WaveformType
  lfo_frequency :: real
  lfo_depth :: real

record SynthSettings =
  opt_speakersOn :: "bool option"
  opt_volume :: "real option"

record ActiveVoice =
  voice_note :: string
  voice_oscillators :: "nat list"
  gainNodes :: "nat list"
  filters :: "nat list"
  volumeEnvelope :: Envelope
  filterEnvelope :: Envelope
  releaseTime :: real

text \<open>
  \<open>activeVoices\<close> is a JavaScript \<open>Map\<close>: an association list in insertion order, read
  with \<^const>\<open>map_of\<close>, written with \<^const>\<open>AList.update\<close> (an existing key keeps its place, a
  new key goes to the end) and \<^const>\<open>AList.delete\<close>. The three oscillator slots and
  mixer channels are keyed by \<^typ>\<open>osc_key\<close>; the mixer channel of key \<open>k\<close> owns the node
  \<open>MixerNode k\<close>.
\<close>

record Synth =
  oscillators :: "osc_key \<Rightarrow> OscillatorSettings"
  mixer :: "osc_key \<Rightarrow> MixerChannel"
  volumeEnvelopeSettings :: EnvelopeOptions
  filterEnvelopeSettings :: FilterEnvelopeSettings
  lfoSettings :: LFOSettings
  noiseStarted :: bool
  speakersOn :: bool
  activeVoices :: "(string \<times> ActiveVoice) list"
  params :: "AudioParam \<Rightarrow> real"
  calls :: "audio_call list"
  next_node :: nat
  console :: "warning list"

definition default_oscillators :: "osc_key \<Rightarrow> OscillatorSettings" where
  "default_oscillators k =
     (case k of
        osc1 \<Rightarrow> \<lparr>osc_range = 8, waveform = square, detune = 0\<rparr>
      | osc2 \<Rightarrow> \<lparr>osc_range = 4, waveform = sawtooth, detune = 0\<rparr>
      | osc3 \<Rightarrow> \<lparr>osc_range = 16, waveform = square, detune = 0\<rparr>)"

definition default_volumeEnvelopeSettings :: EnvelopeOptions where
  "default_volumeEnvelopeSettings =
     \<lparr>attack = 1 / 100, decay = 1 / 2, sustain = 4 / 10, release = 3 / 10,
      startLevel = Some 0, maxLevel = Some 1\<rparr>"

definition default_filterEnvelopeSettings :: FilterEnvelopeSettings where
  "default_filterEnvelopeSettings =
     \<lparr>attack = 1 / 10, decay = 1 / 2, sustain = 2000, release = 1,
      startLevel = Some 200, maxLevel = Some 10000,
      Q = 5, cutoffFrequency = 10000, contour = 1, filterType = lowpass\<rparr>"

definition default_lfoSettings :: LFOSettings where
  "default_lfoSettings = \<lparr>lfo_waveform = triangle, lfo_frequency = 0, lfo_depth = 0\<rparr>"

text \<open>The constructor, with \<open>initNoise\<close> and \<open>initLFO\<close>.\<close>

definition constructor_calls :: "bool \<Rightarrow> real \<Rightarrow> audio_call list" where
  "constructor_calls speakers vol =
     [CreateGain (MixerNode osc1) (1 / 4),
      CreateGain (MixerNode osc2) (1 / 4),
      CreateGain (MixerNode osc3) (1 / 4),
      CreateGain MasterVolume vol,
      CreateGain Output 1,
      CreateCompressor Limiter,
      CreateGain NoiseGate 0,
      CreateGain NoiseLevel 0,
      CreateFilter NoiseFilter bandpass 1000 1,
      Connect (MixerNode osc1) Limiter,
      Connect (MixerNode osc2) Limiter,
      Connect (MixerNode osc3) Limiter,
      Connect Limiter MasterVolume,
      Connect MasterVolume (if speakers then Speakers else Output),
      CreateNoise NoiseSource,
      Connect NoiseSource NoiseFilter,
      Connect NoiseFilter NoiseLevel,
      Connect NoiseLevel NoiseGate,
      Connect NoiseGate MasterVolume,
      CreateOscillator LFO (lfo_frequency default_lfoSettings) (lfo_waveform default_lfoSettings),
      CreateGain LFOPitchGain (lfo_depth default_lfoSettings),
      CreateGain LFOFilterGain (lfo_depth default_lfoSettings * 100),
      Connect LFO LFOPitchGain,
      Connect LFO LFOFilterGain,
      Start LFO None]"

definition constructor_params :: "real \<Rightarrow> (AudioParam \<times> real) list" where
  "constructor_params vol =
     [(Gain (MixerNode osc1), 1 / 4),
      (Gain (MixerNode osc2), 1 / 4),
      (Gain (MixerNode osc3), 1 / 4),
      (Gain MasterVolume, vol),
      (Gain Output, 1),
      (Gain NoiseGate, 0),
      (Gain NoiseLevel, 0),
      (Frequency NoiseFilter, 1000),
      (QValue NoiseFilter, 1),
      (Frequency LFO, lfo_frequency default_lfoSettings),
      (Gain LFOPitchGain, lfo_depth default_lfoSettings),
      (Gain LFOFilterGain, lfo_depth default_lfoSettings * 100)]"

definition Synth_new :: "SynthSettings \<Rightarrow> Synth" where
  "Synth_new settings =
     (let speakers = nullish (opt_speakersOn settings) True;
          vol = nullish (opt_volume settings) (1 / 2)
      in \<lparr>oscillators = default_oscillators,
          mixer = (\<lambda>k. \<lparr>volume = 1 / 4, active = True\<rparr>),
          volumeEnvelopeSettings = default_volumeEnvelopeSettings,
          filterEnvelopeSettings = default_filterEnvelopeSettings,
          lfoSettings = default_lfoSettings,
          noiseStarted = False,
          speakersOn = speakers,
          activeVoices = [],
          params = assign (constructor_params vol) (\<lambda>p. 0),
          calls = constructor_calls speakers vol,
          next_node = 0,
          console = []\<rparr>)"

definition rangeToFrequency :: "real \<Rightarrow> real \<Rightarrow> real" where
  "rangeToFrequency baseFrequency range' =
     (if range' = 2 then baseFrequency * 4
      else if range' = 4 then baseFrequency * 2
      else if range' = 16 then baseFrequency / 2
      else if range' = 32 then baseFrequency / 4
      else if range' = 64 then baseFrequency / 8
      else baseFrequency)"

text \<open>
  The three oscillator slots, as both loops of \<open>playNote\<close> visit them: the zero-based
  index with the key \<open>osc1\<close>, \<open>osc2\<close>, \<open>osc3\<close>. A voice created when the next free node
  number is \<open>base\<close> has the oscillator of index \<open>i\<close> at \<open>base + i\<close>, its gain node at
  \<open>base + 3 + 2 * i\<close> and its filter at \<open>base + 4 + 2 * i\<close>, the order of creation.
\<close>

definition slots :: "(nat \<times> osc_key) list" where
  "slots = [(0, osc1), (1, osc2), (2, osc3)]"

definition osc_node :: "nat \<Rightarrow> nat \<Rightarrow> nat" where
  "osc_node base i = base + i"

definition gain_node :: "nat \<Rightarrow> nat \<Rightarrow> nat" where
  "gain_node base i = base + 3 + 2 * i"

definition filter_node :: "nat \<Rightarrow> nat \<Rightarrow> nat" where
  "filter_node base i = base + 4 + 2 * i"

definition createOscillators_calls :: "Synth \<Rightarrow> real \<Rightarrow> nat \<Rightarrow> audio_call list" where
  "createOscillators_calls s frequency base =
     map (\<lambda>(i, k). CreateOscillator (VoiceNode (osc_node base i))
                      (rangeToFrequency frequency (osc_range (oscillators s k)))
                      (waveform (oscillators s k))) slots"

definition createOscillators_params :: "Synth \<Rightarrow> real \<Rightarrow> nat \<Rightarrow> (AudioParam \<times> real) list" where
  "createOscillators_params s frequency base =
     concat (map (\<lambda>(i, k).
        [(Frequency (VoiceNode (osc_node base i)),
            rangeToFrequency frequency (osc_range (oscillators s k))),
         (Detune (VoiceNode (osc_node base i)), detune (oscillators s k))]) slots)"

text \<open>
  The options of every filter envelope of a voice, with the contour applied
  (\<open>startLevel ?? 200\<close>, \<open>maxLevel ?? 10000\<close>, \<open>scaledMaxLevel\<close>).
\<close>

definition filterEnvelopeOptions :: "Synth \<Rightarrow> EnvelopeOptions" where
  "filterEnvelopeOptions s =
     (let fs = filterEnvelopeSettings s;
          startLevel' = nullish (startLevel fs) 200;
          maxLevel' = nullish (maxLevel fs) 10000;
          envDepth = maxLevel' - startLevel';
          scaledMaxLevel = startLevel' + envDepth * contour fs
      in \<lparr>attack = attack fs, decay = decay fs, sustain = sustain fs, release = release fs,
          startLevel = Some startLevel', maxLevel = Some scaledMaxLevel\<rparr>)"

text \<open>The envelope pair of the oscillator of index \<open>i\<close>, connected to its gain and filter.\<close>

definition voice_volumeEnvelope :: "Synth \<Rightarrow> nat \<Rightarrow> nat \<Rightarrow> Envelope" where
  "voice_volumeEnvelope s base i =
     connect (Gain (VoiceNode (gain_node base i))) (Envelope_new (volumeEnvelopeSettings s))"

definition voice_filterEnvelope :: "Synth \<Rightarrow> nat \<Rightarrow> nat \<Rightarrow> Envelope" where
  "voice_filterEnvelope s base i =
     connect (Frequency (VoiceNode (filter_node base i))) (Envelope_new (filterEnvelopeOptions s))"

text \<open>
  The body of \<open>oscillators.forEach\<close>: the primary envelopes (index 0) are only connected
  here and triggered after the loop; the others are created, connected and triggered here.
\<close>

definition chain_calls :: "Env \<Rightarrow> Synth \<Rightarrow> real \<Rightarrow> nat \<Rightarrow> nat \<times> osc_key \<Rightarrow> audio_call list" where
  "chain_calls e s startTime base ik =
     (case ik of (i, k) \<Rightarrow>
        let osc = VoiceNode (osc_node base i);
            gainNode = VoiceNode (gain_node base i);
            filter' = VoiceNode (filter_node base i);
            fs = filterEnvelopeSettings s
        in [CreateGain gainNode 0,
            CreateFilter filter' (filterType fs) (cutoffFrequency fs) (Q fs),
            Connect osc gainNode,
            Connect gainNode filter',
            Connect filter' (MixerNode k)]
           @ (if i = 0 then []
              else trigger e (Some startTime) (voice_volumeEnvelope s base i)
                   @ trigger e (Some startTime) (voice_filterEnvelope s base i))
           @ [Start osc (Some startTime)])"

definition chain_params :: "Synth \<Rightarrow> nat \<Rightarrow> nat \<times> osc_key \<Rightarrow> (AudioParam \<times> real) list" where
  "chain_params s base ik =
     (case ik of (i, k) \<Rightarrow>
        [(Gain (VoiceNode (gain_node base i)), 0),
         (Frequency (VoiceNode (filter_node base i)), cutoffFrequency (filterEnvelopeSettings s)),
         (QValue (VoiceNode (filter_node base i)), Q (filterEnvelopeSettings s))])"

definition connectLFOToVoice :: "nat list \<Rightarrow> nat list \<Rightarrow> audio_call list" where
  "connectLFOToVoice oscs fls =
     map (\<lambda>osc. ConnectParam LFOPitchGain (Detune (VoiceNode osc))) oscs
     @ map (\<lambda>f. ConnectParam LFOFilterGain (Frequency (VoiceNode f))) fls"

text \<open>
  What \<open>stopNote\<close> schedules for a voice at \<open>stopTime\<close>: the release of the two
  envelopes the voice holds, a linear fade of each gain node, and the stop of each
  oscillator. \<open>osc.stop\<close> is called inside a \<open>try\<close> whose \<open>catch\<close> is empty, so the call
  is made for every oscillator whatever the substrate answers.
\<close>

definition release_calls :: "Env \<Rightarrow> real \<Rightarrow> ActiveVoice \<Rightarrow> audio_call list" where
  "release_calls e stopTime voice =
     snd (triggerRelease e (Some stopTime) (volumeEnvelope voice))
     @ snd (triggerRelease e (Some stopTime) (filterEnvelope voice))
     @ concat (map (\<lambda>g.
          [CancelScheduledValues (Gain (VoiceNode g)) stopTime,
           SetValueAtTime (Gain (VoiceNode g)) (paramValue e (Gain (VoiceNode g))) stopTime,
           LinearRampToValueAtTime (Gain (VoiceNode g)) 0 (stopTime + releaseTime voice)])
          (gainNodes voice))
     @ map (\<lambda>osc. Stop (VoiceNode osc) (stopTime + releaseTime voice + 1 / 10))
          (voice_oscillators voice)"

definition stopNote :: "Env \<Rightarrow> string \<Rightarrow> real option \<Rightarrow> Synth \<Rightarrow> Synth" where
  "stopNote e noteName stopTime' s =
     (let stopTime = nullish stopTime' (currentTime e)
      in case map_of (activeVoices s) noteName of
           None \<Rightarrow> s
         | Some voice \<Rightarrow>
             let voices = AList.delete noteName (activeVoices s)
             in s\<lparr>calls := calls s @ release_calls e stopTime voice,
                  activeVoices := voices,
                  params := (if length voices = 0 then (params s)(Gain NoiseGate := 0)
                             else params s)\<rparr>)"

text \<open>
  The record that \<open>playNote\<close> stores in the table, for a voice built when the state is
  \<open>s\<close>: its node handles, its primary envelopes, and the release time read from the volume
  envelope settings at that moment.
\<close>

definition new_voice :: "Synth \<Rightarrow> string \<Rightarrow> ActiveVoice" where
  "new_voice s noteName =
     \<lparr>voice_note = noteName,
      voice_oscillators = map (\<lambda>(i, k). osc_node (next_node s) i) slots,
      gainNodes = map (\<lambda>(i, k). gain_node (next_node s) i) slots,
      filters = map (\<lambda>(i, k). filter_node (next_node s) i) slots,
      volumeEnvelope = voice_volumeEnvelope s (next_node s) 0,
      filterEnvelope = voice_filterEnvelope s (next_node s) 0,
      releaseTime = release (volumeEnvelopeSettings s)\<rparr>"

text \<open>
  \<open>playNote\<close>. The call to \<open>audioEngine.resume()\<close> is not awaited and touches nothing
  the engine reads; it has no counterpart here.
\<close>

definition playNote :: "Env \<Rightarrow> string \<Rightarrow> real option \<Rightarrow> Synth \<Rightarrow> Synth" where
  "playNote e noteName startTime' s =
     (let startTime = nullish startTime' (currentTime e);
          s1 = (if map_of (activeVoices s) noteName \<noteq> None then stopNote e noteName None s
                else s);
          frequency = fst (noteToFrequency noteName);
          base = next_node s1;
          voice = new_voice s1 noteName
      in s1\<lparr>console := console s1 @ snd (noteToFrequency noteName),
             next_node := base + 9,
             calls := calls s1
               @ createOscillators_calls s1 frequency base
               @ concat (map (chain_calls e s1 startTime base) slots)
               @ connectLFOToVoice (voice_oscillators voice) (filters voice)
               @ trigger e (Some startTime) (volumeEnvelope voice)
               @ trigger e (Some startTime) (filterEnvelope voice),
             params := (assign (createOscillators_params s1 frequency base
                                @ concat (map (chain_params s1 base) slots)) (params s1))
                        (Frequency NoiseFilter := frequency, Gain NoiseGate := 1),
             activeVoices := AList.update noteName voice (activeVoices s1)\<rparr>)"

text \<open>
  \<open>stopAll\<close> walks the keys of the map while \<open>stopNote\<close> deletes the key just visited;
  a \<open>Map\<close> iterator then goes on to the remaining entries, so every key present at the
  start is visited once.
\<close>

definition stopAll :: "Env \<Rightarrow> Synth \<Rightarrow> Synth" where
  "stopAll e s = fold (\<lambda>noteName. stopNote e noteName None) (map fst (activeVoices s)) s"

definition setVolume :: "real \<Rightarrow> Synth \<Rightarrow> Synth" where
  "setVolume v s = s\<lparr>params := (params s)(Gain MasterVolume := max 0 (min 1 v))\<rparr>"

definition setNoiseLevel :: "real \<Rightarrow> Synth \<Rightarrow> Synth" where
  "setNoiseLevel v s =
     (let s1 = s\<lparr>params := (params s)(Gain NoiseLevel := max 0 (min 1 v))\<rparr>
      in if v > 0 \<and> \<not> noiseStarted s1
         then s1\<lparr>calls := calls s1 @ [Start NoiseSource None], noiseStarted := True\<rparr>
         else s1)"

definition setNoiseFilterFrequency :: "real \<Rightarrow> Synth \<Rightarrow> Synth" where
  "setNoiseFilterFrequency v s =
     s\<lparr>params := (params s)(Frequency NoiseFilter := max 20 (min 20000 v))\<rparr>"

definition setNoiseFilterQ :: "real \<Rightarrow> Synth \<Rightarrow> Synth" where
  "setNoiseFilterQ v s =
     s\<lparr>params := (params s)(QValue NoiseFilter := max (1 / 10) (min 20 v))\<rparr>"

definition setFilterType :: "FilterType \<Rightarrow> Synth \<Rightarrow> Synth" where
  "setFilterType t s = s\<lparr>filterEnvelopeSettings := (filterEnvelopeSettings s)\<lparr>filterType := t\<rparr>\<rparr>"

definition osc_key_of :: "string \<Rightarrow> osc_key option" where
  "osc_key_of k = map_of [(''osc1'', osc1), (''osc2'', osc2), (''osc3'', osc3)] k"

text \<open>\<open>parseInt(oscKey.replace('osc', '')) - 1\<close> on the three keys.\<close>

definition osc_index :: "osc_key \<Rightarrow> nat" where
  "osc_index k = (case k of osc1 \<Rightarrow> 0 | osc2 \<Rightarrow> 1 | osc3 \<Rightarrow> 2)"

datatype osc_update = SetRange real | SetWaveform WaveformType | SetDetune real

definition updateOscillator :: "string \<Rightarrow> osc_update \<Rightarrow> Synth \<Rightarrow> Synth" where
  "updateOscillator oscKey u s =
     (case osc_key_of oscKey of
        None \<Rightarrow> s
      | Some k \<Rightarrow>
          (case u of
             SetRange v \<Rightarrow> s\<lparr>oscillators := (oscillators s)(k := (oscillators s k)\<lparr>osc_range := v\<rparr>)\<rparr>
           | SetWaveform w \<Rightarrow> s\<lparr>oscillators := (oscillators s)(k := (oscillators s k)\<lparr>waveform := w\<rparr>)\<rparr>
           | SetDetune v \<Rightarrow>
               s\<lparr>oscillators := (oscillators s)(k := (oscillators s k)\<lparr>detune := v\<rparr>),
                 params := assign
                   (concat (map (\<lambda>(n, voice).
                      if osc_index k < length (voice_oscillators voice)
                      then [(Detune (VoiceNode (voice_oscillators voice ! osc_index k)), v)]
                      else []) (activeVoices s)))
                   (params s)\<rparr>))"

definition updateMixer :: "string \<Rightarrow> real \<Rightarrow> Synth \<Rightarrow> Synth" where
  "updateMixer oscKey v s =
     (case osc_key_of oscKey of
        None \<Rightarrow> s
      | Some k \<Rightarrow>
          s\<lparr>mixer := (mixer s)(k := (mixer s k)\<lparr>volume := v\<rparr>),
            params := (params s)(Gain (MixerNode k) := v)\<rparr>)"

datatype lfo_update = LfoWaveform WaveformType | LfoFrequency real | LfoDepth real

definition updateLFO :: "lfo_update \<Rightarrow> Synth \<Rightarrow> Synth" where
  "updateLFO u s =
     (case u of
        LfoWaveform w \<Rightarrow>
          s\<lparr>lfoSettings := (lfoSettings s)\<lparr>lfo_waveform := w\<rparr>,
            calls := calls s @ [SetOscillatorType LFO w]\<rparr>
      | LfoFrequency v \<Rightarrow>
          s\<lparr>lfoSettings := (lfoSettings s)\<lparr>lfo_frequency := v\<rparr>,
            params := (params s)(Frequency LFO := v)\<rparr>
      | LfoDepth v \<Rightarrow>
          s\<lparr>lfoSettings := (lfoSettings s)\<lparr>lfo_depth := v\<rparr>,
            params := (params s)(Gain LFOPitchGain := v, Gain LFOFilterGain := v * 100)\<rparr>)"

subsection \<open>The control panel's writes to the public settings\<close>

text \<open>
  \<open>handleFilterChange\<close> and \<open>handleVolumeFilterChange\<close> of the synth panel assign the
  fields of the two settings objects directly. The chat panel's patch command writes the
  same fields, the cutoff likewise into both \<open>cutoffFrequency\<close> and \<open>maxLevel\<close>.
\<close>

definition handleFilterChange :: "string \<Rightarrow> real \<Rightarrow> Synth \<Rightarrow> Synth" where
  "handleFilterChange name v s =
     (let fs = filterEnvelopeSettings s
      in if name = ''filter-attack'' then s\<lparr>filterEnvelopeSettings := fs\<lparr>attack := v / 100\<rparr>\<rparr>
         else if name = ''filter-decay'' then s\<lparr>filterEnvelopeSettings := fs\<lparr>decay := v / 10\<rparr>\<rparr>
         else if name = ''filter-sustain'' then s\<lparr>filterEnvelopeSettings := fs\<lparr>sustain := v * 1000\<rparr>\<rparr>
         else if name = ''filter-release'' then s\<lparr>filterEnvelopeSettings := fs\<lparr>release := v\<rparr>\<rparr>
         else if name = ''cutoffFrequency''
           then s\<lparr>filterEnvelopeSettings := fs\<lparr>cutoffFrequency := v, maxLevel := Some v\<rparr>\<rparr>
         else if name = ''emphasis'' then s\<lparr>filterEnvelopeSettings := fs\<lparr>Q := v\<rparr>\<rparr>
         else if name = ''contour'' then s\<lparr>filterEnvelopeSettings := fs\<lparr>contour := v / 10\<rparr>\<rparr>
         else if name = ''filter-start'' then s\<lparr>filterEnvelopeSettings := fs\<lparr>startLevel := Some v\<rparr>\<rparr>
         else s)"

definition handleVolumeFilterChange :: "string \<Rightarrow> real \<Rightarrow> Synth \<Rightarrow> Synth" where
  "handleVolumeFilterChange name v s =
     (let vs = volumeEnvelopeSettings s
      in if name = ''attack'' then s\<lparr>volumeEnvelopeSettings := vs\<lparr>attack := v\<rparr>\<rparr>
         else if name = ''decay'' then s\<lparr>volumeEnvelopeSettings := vs\<lparr>decay := v\<rparr>\<rparr>
         else if name = ''sustain'' then s\<lparr>volumeEnvelopeSettings := vs\<lparr>sustain := v\<rparr>\<rparr>
         else if name = ''release'' then s\<lparr>volumeEnvelopeSettings := vs\<lparr>release := v\<rparr>\<rparr>
         else s)"

subsection \<open>Sequences of operations\<close>

datatype operation =
    PlayNote string "real option"
  | StopNote string "real option"
  | StopAll
  | SetVolume real
  | SetNoiseLevel real
  | SetNoiseFilterFrequency real
  | SetNoiseFilterQ real
  | SetFilterType FilterType
  | UpdateOscillator string osc_update
  | UpdateMixer string real
  | UpdateLFO lfo_update
  | HandleFilterChange string real
  | HandleVolumeFilterChange string real

fun step :: "Env \<times> operation \<Rightarrow> Synth \<Rightarrow> Synth" where
  "step (e, PlayNote n t) s = playNote e n t s"
| "step (e, StopNote n t) s = stopNote e n t s"
| "step (e, StopAll) s = stopAll e s"
| "step (e, SetVolume v) s = setVolume v s"
| "step (e, SetNoiseLevel v) s = setNoiseLevel v s"
| "step (e, SetNoiseFilterFrequency v) s = setNoiseFilterFrequency v s"
| "step (e, SetNoiseFilterQ v) s = setNoiseFilterQ v s"
| "step (e, SetFilterType t) s = setFilterType t s"
| "step (e, UpdateOscillator k u) s = updateOscillator k u s"
| "step (e, UpdateMixer k v) s = updateMixer k v s"
| "step (e, UpdateLFO u) s = updateLFO u s"
| "step (e, HandleFilterChange n v) s = handleFilterChange n v s"
| "step (e, HandleVolumeFilterChange n v) s = handleVolumeFilterChange n v s"

definition run :: "(Env \<times> operation) list \<Rightarrow> Synth \<Rightarrow> Synth" where
  "run ops s = fold step ops s"

section \<open>Observations used in the statements\<close>

text \<open>The endpoint values of the exponential ramps in a log of calls, in order.\<close>

fun exponential_endpoints :: "audio_call list \<Rightarrow> real list" where
  "exponential_endpoints [] = []"
| "exponential_endpoints (ExponentialRampToValueAtTime p v t # cs) = v # exponential_endpoints cs"
| "exponential_endpoints (c # cs) = exponential_endpoints cs"

text \<open>
  A note name read declaratively: a letter accepted by \<open>letter\<close>, then either digits, or
  an accidental and digits. \<open>spec_note_form\<close> is the form \<open>[A-G](#|b)?[0-9]+\<close> of the
  specification; the expression in the source also admits the lower-case letters.
\<close>

definition note_form :: "(char \<Rightarrow> bool) \<Rightarrow> string \<Rightarrow> bool" where
  "note_form letter note =
     (case note of
        [] \<Rightarrow> False
      | c # cs \<Rightarrow>
          letter c \<and>
          (digits cs \<or> (case cs of [] \<Rightarrow> False | a # ds \<Rightarrow> is_accidental a \<and> digits ds)))"

definition spec_note_form :: "string \<Rightarrow> bool" where
  "spec_note_form note = note_form (\<lambda>c. c \<in> set ''ABCDEFG'') note"

text \<open>Concrete inputs for the examples.\<close>

definition zero_envelope :: Envelope where
  "zero_envelope =
     Envelope_new \<lparr>attack = 0, decay = 0, sustain = 0, release = 0,
                   startLevel = Some 0, maxLevel = Some 0\<rparr>"

definition quiet_env :: Env where
  "quiet_env = \<lparr>currentTime = 0, paramValue = (\<lambda>p. 0)\<rparr>"

definition default_synth :: Synth where
  "default_synth = Synth_new \<lparr>opt_speakersOn = None, opt_volume = None\<rparr>"

text \<open>The operations that act on the voice of the key \<open>n\<close>.\<close>

fun touches :: "string \<Rightarrow> operation \<Rightarrow> bool" where
  "touches n (PlayNote m t) = (m = n)"
| "touches n (StopNote m t) = (m = n)"
| "touches n StopAll = True"
| "touches n _ = False"

text \<open>How many entries of the table have the key \<open>n\<close>.\<close>

definition voices_under :: "string \<Rightarrow> Synth \<Rightarrow> nat" where
  "voices_under n s = length (filter (\<lambda>(k, v). k = n) (activeVoices s))"

text \<open>The parameter and end time of each exponential ramp in a log of calls, in order.\<close>

fun exponential_ramp_ends :: "audio_call list \<Rightarrow> (AudioParam \<times> real) list" where
  "exponential_ramp_ends [] = []"
| "exponential_ramp_ends (ExponentialRampToValueAtTime p v t # cs) = (p, t) # exponential_ramp_ends cs"
| "exponential_ramp_ends (c # cs) = exponential_ramp_ends cs"

text \<open>The invariants of the engine's state that the proofs carry along a run.\<close>

definition keys_distinct :: "Synth \<Rightarrow> bool" where
  "keys_distinct s \<longleftrightarrow> distinct (map fst (activeVoices s))"

definition gate_follows_voices :: "Synth \<Rightarrow> bool" where
  "gate_follows_voices s \<longleftrightarrow>
     params s (Gain NoiseGate) = (if activeVoices s = [] then 0 else 1)"

definition cutoff_is_maxLevel :: "Synth \<Rightarrow> bool" where
  "cutoff_is_maxLevel s \<longleftrightarrow>
     maxLevel (filterEnvelopeSettings s) = Some (cutoffFrequency (filterEnvelopeSettings s))"

text \<open>A log of calls whose exponential ramps all end at \<open>1e-4\<close> or above.\<close>

definition floored :: "audio_call list \<Rightarrow> bool" where
  "floored cs \<longleftrightarrow> list_all (\<lambda>v. 1 / 10000 \<le> v) (exponential_endpoints cs)"

definition ramps_floored :: "Synth \<Rightarrow> bool" where
  "ramps_floored s \<longleftrightarrow> floored (calls s)"

text \<open>More concrete inputs: a synth whose volume release is 0, and later operations that
  change both release settings and play another note.\<close>

definition zero_release_synth :: Synth where
  "zero_release_synth = handleVolumeFilterChange ''release'' 0 default_synth"

definition later_ops :: "(Env \<times> operation) list" where
  "later_ops =
     [(quiet_env, HandleVolumeFilterChange ''release'' 5),
      (quiet_env, HandleFilterChange ''filter-release'' 4),
      (quiet_env, PlayNote ''C3'' None)]"

definition retrigger_ops :: "(Env \<times> operation) list" where
  "retrigger_ops =
     [(quiet_env, PlayNote ''A4'' None), (quiet_env, PlayNote ''C3'' None),
      (quiet_env, StopNote ''A4'' None)]"

definition contour_ops :: "(Env \<times> operation) list" where
  "contour_ops =
     [(quiet_env, HandleFilterChange ''cutoffFrequency'' 5000),
      (quiet_env, HandleFilterChange ''contour'' 5)]"

section \<open>Frequency conversion\<close>

lemma digit_nth:
  "d < 10 \<Longrightarrow> is_digit (''0123456789'' ! d) \<and> digit_value (''0123456789'' ! d) = int d"
proof -
  assume "d < 10"
  then have "d \<in> {0, 1, 2, 3, 4, 5, 6, 7, 8, 9}" by auto
  then show ?thesis by (auto simp: is_digit_def digit_value_def)
qed

lemma parseInt_snoc: "parseInt (ds @ [c]) = 10 * parseInt ds + digit_value c"
  by (simp add: parseInt_def)

lemma digits_of_nat_roundtrip:
  "digits (digits_of_nat n) \<and> parseInt (digits_of_nat n) = int n"
proof (induction n rule: digits_of_nat.induct)
  case (1 n)
  show ?case
  proof (cases "n < 10")
    case True
    then show ?thesis
      using digit_nth [of n] by (simp add: digits_of_nat.simps [of n] digits_def parseInt_def)
  next
    case False
    then have ih: "digits (digits_of_nat (n div 10))"
      "parseInt (digits_of_nat (n div 10)) = int (n div 10)"
      using 1 by simp_all
    have d: "n mod 10 < 10" by simp
    from False have eq: "digits_of_nat n = digits_of_nat (n div 10) @ [''0123456789'' ! (n mod 10)]"
      by (simp add: digits_of_nat.simps [of n])
    show ?thesis
      using ih digit_nth [OF d] unfolding eq parseInt_snoc
      by (simp add: digits_def zdiv_int zmod_int)
  qed
qed

lemma digit_not_accidental: "is_digit c \<Longrightarrow> \<not> is_accidental c"
  by (auto simp: is_digit_def is_accidental_def)

lemma digits_hd: "digits ds \<Longrightarrow> \<exists>c cs. ds = c # cs \<and> is_digit c"
  by (cases ds) (auto simp: digits_def)

text \<open>A name of \<open>noteNames\<close> followed by digits is parsed back to its index and octave.\<close>

lemma noteToFrequency_name:
  assumes r: "r < 12" and ds: "digits ds"
  shows "noteToFrequency (noteNames ! r @ ds)
         = (440 * 2 powr (real_of_int (int r - 9 + (parseInt ds - 4) * 12) / 12), [])"
proof -
  obtain c cs where ds_eq: "ds = c # cs" and c: "is_digit c"
    using digits_hd [OF ds] by blast
  have na: "\<not> is_accidental c" using c by (rule digit_not_accidental)
  have dcs: "digits (c # cs)" using ds ds_eq by simp
  from r have "r = 0 \<or> r = 1 \<or> r = 2 \<or> r = 3 \<or> r = 4 \<or> r = 5 \<or> r = 6 \<or> r = 7
      \<or> r = 8 \<or> r = 9 \<or> r = 10 \<or> r = 11" by arith
  then show ?thesis
    unfolding ds_eq using na dcs
    by (elim disjE)
       (simp_all add: noteNames_def noteToFrequency_def note_match_def is_note_letter_def
          is_accidental_def toUpperCase_char_def notes_table_def)
qed

lemma midiToNote_eq:
  assumes "12 \<le> m"
  shows "midiToNote m = noteNames ! nat (m mod 12) @ digits_of_nat (nat (m div 12 - 1))"
proof -
  have "0 \<le> m mod 12" "m mod 12 < 12" by simp_all
  moreover have "0 \<le> m div 12 - 1" using assms by linarith
  ultimately show ?thesis using assms
    by (simp add: midiToNote_def js_rem_def number_to_string_def Let_def)
qed

lemma midi_note_roundtrip:
  assumes "12 \<le> m"
  shows "noteToFrequency (midiToNote m) = (midiToFrequency m, [])"
proof -
  let ?r = "nat (m mod 12)" and ?o = "nat (m div 12 - 1)"
  have r: "?r < 12" by simp
  have o: "0 \<le> m div 12 - 1" using assms by linarith
  have dg: "digits (digits_of_nat ?o)"
    using digits_of_nat_roundtrip [of ?o] by simp
  have pi: "parseInt (digits_of_nat ?o) = m div 12 - 1"
    using digits_of_nat_roundtrip [of ?o] o by simp
  have "m mod 12 - 9 + (m div 12 - 1 - 4) * 12 = m - 69"
    by presburger
  then have k: "int ?r - 9 + (parseInt (digits_of_nat ?o) - 4) * 12 = m - 69"
    unfolding pi by simp
  have "noteToFrequency (noteNames ! ?r @ digits_of_nat ?o)
        = (440 * 2 powr (real_of_int (m - 69) / 12), [])"
    using noteToFrequency_name [OF r dg] unfolding k .
  then show ?thesis
    by (simp add: midiToNote_eq [OF assms] midiToFrequency_def)
qed

text \<open>
  Claim C10. For every integer MIDI note \<open>m\<close> with \<open>12 \<le> m \<le> 127\<close>, converting \<open>m\<close> to a
  note name and that name to a frequency gives the frequency of \<open>m\<close> itself, which is
  \<open>440 * 2 ^ ((m - 69) / 12)\<close>; the lookup reports no warning on the way.
\<close>

theorem midi_name_frequency_roundtrip:
  assumes "12 \<le> m" and "m \<le> 127"
  shows "fst (noteToFrequency (midiToNote m)) = midiToFrequency m
         \<and> midiToFrequency m = 440 * 2 powr ((real_of_int m - 69) / 12)
         \<and> snd (noteToFrequency (midiToNote m)) = []"
  using midi_note_roundtrip [OF assms(1)] by (simp add: midiToFrequency_def)

theorem midi_name_frequency_roundtrip_witness:
  "(12::int) \<le> 81 \<and> (81::int) \<le> 127
   \<and> midiToNote 81 = ''A5''
   \<and> fst (noteToFrequency (midiToNote 81)) = midiToFrequency 81
   \<and> midiToFrequency 81 = 880
   \<and> snd (noteToFrequency (midiToNote 81)) = []"
proof -
  have a: "(12::int) \<le> 81" and b: "(81::int) \<le> 127" by simp_all
  have n: "midiToNote 81 = ''A5''"
    by (simp add: midiToNote_def js_rem_def number_to_string_def noteNames_def
        digits_of_nat.simps Let_def)
  have f: "midiToFrequency 81 = 880" by (simp add: midiToFrequency_def)
  show ?thesis
    using midi_name_frequency_roundtrip [OF a b] n f by simp
qed

text \<open>
  Claim C9. For every base frequency \<open>f\<close>, \<open>rangeToFrequency\<close> returns \<open>f * 4\<close> for range
  2, \<open>f * 2\<close> for range 4, \<open>f * 1\<close> for range 8, \<open>f / 2\<close> for range 16 and \<open>f / 4\<close> for
  range 32.
\<close>

theorem rangeToFrequency_table:
  "rangeToFrequency f 2 = f * 4 \<and> rangeToFrequency f 4 = f * 2 \<and> rangeToFrequency f 8 = f * 1
   \<and> rangeToFrequency f 16 = f / 2 \<and> rangeToFrequency f 32 = f / 4"
  by (simp add: rangeToFrequency_def)

text \<open>
  Claim C8, as stated, fails: the lower-case name \<open>a5\<close> is not of the form
  \<open>[A-G](#|b)?[0-9]+\<close>, yet the lookup resolves it to 880 Hz and reports no warning.
\<close>

theorem lowercase_note_counterexample:
  "\<not> spec_note_form ''a5'' \<and> noteToFrequency ''a5'' = (880, [])"
  by (simp add: spec_note_form_def note_form_def noteToFrequency_def note_match_def
      is_note_letter_def is_accidental_def digits_def is_digit_def toUpperCase_char_def
      parseInt_def digit_value_def notes_table_def)

lemma note_match_None: "\<not> note_form is_note_letter note \<Longrightarrow> note_match note = None"
  by (auto simp: note_form_def note_match_def split: list.splits)

text \<open>
  Claim C8, amended. For every input string that is not a letter \<open>A\<close> to \<open>G\<close> in either
  case, an optional \<open>#\<close> or \<open>b\<close>, and one or more digits, the lookup returns the fixed
  default of 440 Hz and reports one warning that names the input. The function is total:
  no input string makes it fail.
\<close>

theorem malformed_note_default:
  "\<not> note_form is_note_letter note \<Longrightarrow> noteToFrequency note = (440, [InvalidNoteFormat note])"
  by (simp add: noteToFrequency_def note_match_None)

theorem malformed_note_default_witness:
  "\<not> note_form is_note_letter ''H#4''
   \<and> noteToFrequency ''H#4'' = (440, [InvalidNoteFormat ''H#4''])"
  using malformed_note_default [of "''H#4''"]
  by (simp add: note_form_def is_note_letter_def)

section \<open>Envelope\<close>

lemma exponential_endpoints_append [simp]:
  "exponential_endpoints (xs @ ys) = exponential_endpoints xs @ exponential_endpoints ys"
  by (induction xs rule: exponential_endpoints.induct) simp_all

lemma trigger_endpoints:
  "\<forall>v \<in> set (exponential_endpoints (trigger e t env)). 1 / 10000 \<le> v"
  by (auto simp: trigger_def Let_def max_def split: option.splits)

lemma triggerRelease_endpoints:
  "\<forall>v \<in> set (exponential_endpoints (snd (triggerRelease e t env))). 1 / 10000 \<le> v"
  by (auto simp: triggerRelease_def Let_def max_def split: option.splits)

lemma envelope_step_endpoints:
  assumes "\<forall>v \<in> set (exponential_endpoints (snd st)). 1 / 10000 \<le> v"
  shows "\<forall>v \<in> set (exponential_endpoints (snd (envelope_step c st))). 1 / 10000 \<le> v"
proof -
  obtain e k where c: "c = (e, k)" by (cases c)
  obtain env out where st: "st = (env, out)" by (cases st)
  show ?thesis
    using assms trigger_endpoints [of e _ env] triggerRelease_endpoints [of e _ env]
    unfolding c st by (cases k) auto
qed

lemma fold_envelope_step_endpoints:
  "\<forall>v \<in> set (exponential_endpoints (snd st)). 1 / 10000 \<le> v \<Longrightarrow>
   \<forall>v \<in> set (exponential_endpoints (snd (fold envelope_step cs st))). 1 / 10000 \<le> v"
proof (induction cs arbitrary: st)
  case Nil
  then show ?case by simp
next
  case (Cons c cs)
  show ?case
    using Cons.IH [OF envelope_step_endpoints [OF Cons.prems]] by simp
qed

text \<open>
  Claim C7. For a connected envelope and a start time not before the clock,
  \<open>trigger(startTime)\<close> schedules exactly: cancel from \<open>startTime\<close>, set
  \<open>max(startLevel, 1e-4)\<close> at \<open>startTime\<close>, ramp exponentially to \<open>max(maxLevel, 1e-4)\<close>
  ending \<open>max(attack, 1ms)\<close> later, then ramp exponentially to \<open>max(sustain, 1e-4)\<close> ending
  \<open>max(decay, 1ms)\<close> after the end of the attack.
\<close>

theorem trigger_schedule:
  assumes "param env = Some p" and "currentTime e \<le> startTime"
  shows "trigger e (Some startTime) env =
     [CancelScheduledValues p startTime,
      SetValueAtTime p (max (env_startLevel env) (1 / 10000)) startTime,
      ExponentialRampToValueAtTime p (max (env_maxLevel env) (1 / 10000))
        (startTime + max (env_attack env) (1 / 1000)),
      ExponentialRampToValueAtTime p (max (env_sustain env) (1 / 10000))
        (startTime + max (env_attack env) (1 / 1000) + max (env_decay env) (1 / 1000))]"
  using assms by (simp add: trigger_def nullish_def Let_def max_def)

theorem trigger_schedule_witness:
  "param (connect (Gain (VoiceNode 0)) zero_envelope) = Some (Gain (VoiceNode 0))
   \<and> currentTime quiet_env \<le> 2
   \<and> trigger quiet_env (Some 2) (connect (Gain (VoiceNode 0)) zero_envelope) =
     [CancelScheduledValues (Gain (VoiceNode 0)) 2,
      SetValueAtTime (Gain (VoiceNode 0)) (1 / 10000) 2,
      ExponentialRampToValueAtTime (Gain (VoiceNode 0)) (1 / 10000) (2001 / 1000),
      ExponentialRampToValueAtTime (Gain (VoiceNode 0)) (1 / 10000) (2002 / 1000)]"
proof -
  have p: "param (connect (Gain (VoiceNode 0)) zero_envelope) = Some (Gain (VoiceNode 0))"
    by (simp add: connect_def)
  have t: "currentTime quiet_env \<le> 2" by (simp add: quiet_env_def)
  show ?thesis
    using trigger_schedule [OF p t] p t
    by (simp add: zero_envelope_def Envelope_new_def connect_def nullish_def)
qed

section \<open>Setters\<close>

text \<open>
  Claim C5, as stated, fails: \<open>setNoiseFilterFrequency(50)\<close> stores 50, below 100, and
  \<open>setNoiseFilterQ(15)\<close> stores 15, above 10.
\<close>

theorem noise_filter_clamp_counterexample:
  "params (setNoiseFilterFrequency 50 default_synth) (Frequency NoiseFilter) \<notin> {100..8000}
   \<and> params (setNoiseFilterQ 15 default_synth) (QValue NoiseFilter) \<notin> {1 / 10..10}"
  by (simp add: setNoiseFilterFrequency_def setNoiseFilterQ_def)

text \<open>
  Claim C5, amended. For every real input value each numeric setter stores the value
  clamped into its own interval and never rejects: \<open>setVolume\<close> and \<open>setNoiseLevel\<close> into
  \<open>[0, 1]\<close>, \<open>setNoiseFilterFrequency\<close> into \<open>[20, 20000]\<close> Hz and \<open>setNoiseFilterQ\<close> into
  \<open>[0.1, 20]\<close>. A value inside the interval is stored as it is.
\<close>

theorem setters_clamp:
  "params (setVolume v s) (Gain MasterVolume) \<in> {0..1}
   \<and> params (setNoiseLevel v s) (Gain NoiseLevel) \<in> {0..1}
   \<and> params (setNoiseFilterFrequency v s) (Frequency NoiseFilter) \<in> {20..20000}
   \<and> params (setNoiseFilterQ v s) (QValue NoiseFilter) \<in> {1 / 10..20}
   \<and> (v \<in> {0..1} \<longrightarrow> params (setVolume v s) (Gain MasterVolume) = v
                     \<and> params (setNoiseLevel v s) (Gain NoiseLevel) = v)
   \<and> (v \<in> {20..20000} \<longrightarrow> params (setNoiseFilterFrequency v s) (Frequency NoiseFilter) = v)
   \<and> (v \<in> {1 / 10..20} \<longrightarrow> params (setNoiseFilterQ v s) (QValue NoiseFilter) = v)"
  by (simp add: setVolume_def setNoiseLevel_def setNoiseFilterFrequency_def setNoiseFilterQ_def
      Let_def)

theorem setters_clamp_witness:
  "params (setVolume 30 default_synth) (Gain MasterVolume) = 1
   \<and> params (setNoiseLevel (- 2) default_synth) (Gain NoiseLevel) = 0
   \<and> params (setNoiseFilterFrequency 30 default_synth) (Frequency NoiseFilter) = 30
   \<and> params (setNoiseFilterQ 30 default_synth) (QValue NoiseFilter) = 20
   \<and> params (setNoiseFilterQ 15 default_synth) (QValue NoiseFilter) = 15"
proof -
  have a: "params (setVolume 30 default_synth) (Gain MasterVolume) = 1"
    "params (setNoiseLevel (- 2) default_synth) (Gain NoiseLevel) = 0"
    "params (setNoiseFilterQ 30 default_synth) (QValue NoiseFilter) = 20"
    by (simp_all add: setVolume_def setNoiseLevel_def setNoiseFilterQ_def Let_def)
  have b: "(30::real) \<in> {20..20000}" and c: "(15::real) \<in> {1 / 10..20}" by simp_all
  from setters_clamp [of 30 default_synth] b
  have d: "params (setNoiseFilterFrequency 30 default_synth) (Frequency NoiseFilter) = 30"
    by blast
  from setters_clamp [of 15 default_synth] c
  have e: "params (setNoiseFilterQ 15 default_synth) (QValue NoiseFilter) = 15"
    by blast
  show ?thesis using a d e by simp
qed

section \<open>Synth: the voice table\<close>

lemma delete_absent: "map_of al k = None \<Longrightarrow> AList.delete k al = al"
  by (simp add: map_of_eq_None_iff)

lemma stopNote_activeVoices:
  "activeVoices (stopNote e n t s) = AList.delete n (activeVoices s)"
  by (simp add: stopNote_def Let_def delete_absent split: option.splits)

lemma stopNote_frame:
  "next_node (stopNote e n t s) = next_node s"
  "volumeEnvelopeSettings (stopNote e n t s) = volumeEnvelopeSettings s"
  "filterEnvelopeSettings (stopNote e n t s) = filterEnvelopeSettings s"
  "oscillators (stopNote e n t s) = oscillators s"
  by (simp_all add: stopNote_def Let_def split: option.splits)

lemma new_voice_stopNote: "new_voice (stopNote e n t s) m = new_voice s m"
  by (simp add: new_voice_def stopNote_frame voice_volumeEnvelope_def voice_filterEnvelope_def
      filterEnvelopeOptions_def)

lemma playNote_activeVoices:
  "activeVoices (playNote e n t s)
   = AList.update n (new_voice s n) (AList.delete n (activeVoices s))"
  by (simp add: playNote_def Let_def stopNote_activeVoices new_voice_stopNote delete_absent)

lemma playNote_frame:
  "volumeEnvelopeSettings (playNote e n t s) = volumeEnvelopeSettings s"
  "filterEnvelopeSettings (playNote e n t s) = filterEnvelopeSettings s"
  by (simp_all add: playNote_def Let_def stopNote_frame)

lemma playNote_gate: "params (playNote e n t s) (Gain NoiseGate) = 1"
  by (simp add: playNote_def Let_def)

lemma playNote_calls:
  "\<exists>cs. calls (playNote e n t s)
        = calls (if map_of (activeVoices s) n \<noteq> None then stopNote e n None s else s) @ cs"
  by (simp add: playNote_def Let_def)

lemma stopNote_calls:
  "map_of (activeVoices s) n = Some v \<Longrightarrow>
   calls (stopNote e n t s) = calls s @ release_calls e (nullish t (currentTime e)) v"
  by (simp add: stopNote_def Let_def)

lemma playNote_stops_first:
  "playNote e n t s = playNote e n t (stopNote e n None s)"
proof (cases "map_of (activeVoices s) n")
  case None
  then have "stopNote e n None s = s" by (simp add: stopNote_def)
  then show ?thesis by simp
next
  case (Some v)
  have "map_of (activeVoices (stopNote e n None s)) n = None"
    by (simp add: stopNote_activeVoices AList.delete_conv')
  then show ?thesis using Some by (simp add: playNote_def)
qed

lemma default_synth_frame:
  "volumeEnvelopeSettings default_synth = default_volumeEnvelopeSettings"
  "filterEnvelopeSettings default_synth = default_filterEnvelopeSettings"
  "next_node default_synth = 0"
  "activeVoices default_synth = []"
  by (simp_all add: default_synth_def Synth_new_def Let_def)

subsection \<open>Runs\<close>

lemma run_invariant:
  assumes "P s" and "\<And>e op s. P s \<Longrightarrow> P (step (e, op) s)"
  shows "P (run ops s)"
  unfolding run_def using assms(1)
proof (induction ops arbitrary: s)
  case Nil
  then show ?case by simp
next
  case (Cons x ops)
  obtain e op where x: "x = (e, op)" by (cases x)
  show ?case using Cons.IH [OF assms(2) [OF Cons.prems, of e op]] by (simp add: x)
qed

lemma fold_stopNote_invariant:
  assumes "\<And>n s. P s \<Longrightarrow> P (stopNote e n None s)"
  shows "P s \<Longrightarrow> P (fold (\<lambda>n. stopNote e n None) ns s)"
  by (induction ns arbitrary: s) (simp_all add: assms)

lemma stopAll_invariant:
  assumes "\<And>n s. P s \<Longrightarrow> P (stopNote e n None s)" and "P s"
  shows "P (stopAll e s)"
  unfolding stopAll_def using assms by (rule fold_stopNote_invariant)

text \<open>The operations other than the note operations leave the table alone.\<close>

lemma other_ops_activeVoices:
  "activeVoices (setVolume v s) = activeVoices s"
  "activeVoices (setNoiseLevel v s) = activeVoices s"
  "activeVoices (setNoiseFilterFrequency v s) = activeVoices s"
  "activeVoices (setNoiseFilterQ v s) = activeVoices s"
  "activeVoices (setFilterType ft s) = activeVoices s"
  "activeVoices (updateOscillator k u s) = activeVoices s"
  "activeVoices (updateMixer k v s) = activeVoices s"
  "activeVoices (updateLFO lu s) = activeVoices s"
  "activeVoices (handleFilterChange name v s) = activeVoices s"
  "activeVoices (handleVolumeFilterChange name v s) = activeVoices s"
  by (simp_all add: setVolume_def setNoiseLevel_def setNoiseFilterFrequency_def
      setNoiseFilterQ_def setFilterType_def updateOscillator_def updateMixer_def updateLFO_def
      handleFilterChange_def handleVolumeFilterChange_def Let_def
      split: option.splits osc_update.splits lfo_update.splits)

subsection \<open>One voice per key\<close>

lemma keys_distinct_step: "keys_distinct s \<Longrightarrow> keys_distinct (step (e, op) s)"
proof (cases op)
  case (PlayNote n t)
  assume "keys_distinct s"
  then show ?thesis
    by (simp add: PlayNote keys_distinct_def playNote_activeVoices
        AList.distinct_update AList.distinct_delete)
next
  case (StopNote n t)
  assume "keys_distinct s"
  then show ?thesis
    by (simp add: StopNote keys_distinct_def stopNote_activeVoices AList.distinct_delete)
next
  case StopAll
  assume "keys_distinct s"
  then have "keys_distinct (stopAll e s)"
    by (rule stopAll_invariant [rotated])
       (simp add: keys_distinct_def stopNote_activeVoices AList.distinct_delete)
  then show ?thesis by (simp add: StopAll)
qed (simp_all add: keys_distinct_def other_ops_activeVoices)

lemma keys_distinct_new: "keys_distinct (Synth_new settings)"
  by (simp add: keys_distinct_def Synth_new_def Let_def)

lemma keys_distinct_run: "keys_distinct (run ops (Synth_new settings))"
  by (rule run_invariant [OF keys_distinct_new keys_distinct_step])

lemma distinct_count_le:
  "distinct (map fst al) \<Longrightarrow> length (filter (\<lambda>(k, v). k = n) al) \<le> 1"
proof (induction al)
  case Nil
  then show ?case by simp
next
  case (Cons p al)
  obtain k v where p: "p = (k, v)" by (cases p)
  show ?case
  proof (cases "k = n")
    case True
    with Cons.prems p have "n \<notin> fst ` set al" by simp
    then have "filter (\<lambda>(k, v). k = n) al = []"
      by (force simp: filter_empty_conv)
    then show ?thesis by (simp add: p)
  next
    case False
    then show ?thesis using Cons by (simp add: p)
  qed
qed

lemma distinct_count_eq:
  assumes "distinct (map fst al)" and "map_of al n = Some v"
  shows "length (filter (\<lambda>(k, v). k = n) al) = 1"
proof -
  have "(n, v) \<in> set al" using assms(2) by (rule map_of_SomeD)
  then have "filter (\<lambda>(k, v). k = n) al \<noteq> []"
    by (auto simp: filter_empty_conv)
  then have "0 < length (filter (\<lambda>(k, v). k = n) al)" by simp
  with distinct_count_le [OF assms(1), of n] show ?thesis by linarith
qed

subsection \<open>The noise gate\<close>

lemma assign_other: "q \<notin> fst ` set as \<Longrightarrow> assign as f q = f q"
  by (induction as f rule: assign.induct) auto

lemma gate_stopNote: "gate_follows_voices s \<Longrightarrow> gate_follows_voices (stopNote e n t s)"
  by (auto simp: gate_follows_voices_def stopNote_def Let_def split: option.splits)

lemma gate_playNote: "gate_follows_voices (playNote e n t s)"
  by (simp add: gate_follows_voices_def playNote_gate playNote_activeVoices)

lemma gate_updateOscillator:
  "gate_follows_voices s \<Longrightarrow> gate_follows_voices (updateOscillator k u s)"
proof -
  assume g: "gate_follows_voices s"
  have "params (updateOscillator k u s) (Gain NoiseGate) = params s (Gain NoiseGate)"
    by (auto simp: updateOscillator_def intro!: assign_other
        split: option.splits osc_update.splits if_splits)
  then show ?thesis
    using g by (simp add: gate_follows_voices_def other_ops_activeVoices)
qed

lemma gate_step: "gate_follows_voices s \<Longrightarrow> gate_follows_voices (step (e, op) s)"
proof (cases op)
  case (PlayNote n t)
  then show ?thesis by (simp add: gate_playNote)
next
  case (StopNote n t)
  assume "gate_follows_voices s"
  then show ?thesis by (simp add: StopNote gate_stopNote)
next
  case StopAll
  assume "gate_follows_voices s"
  then have "gate_follows_voices (stopAll e s)"
    by (rule stopAll_invariant [rotated]) (rule gate_stopNote)
  then show ?thesis by (simp add: StopAll)
next
  case (UpdateOscillator k u)
  assume "gate_follows_voices s"
  then show ?thesis by (simp add: UpdateOscillator gate_updateOscillator)
qed (simp_all add: gate_follows_voices_def setVolume_def setNoiseLevel_def
      setNoiseFilterFrequency_def setNoiseFilterQ_def setFilterType_def updateMixer_def
      updateLFO_def handleFilterChange_def handleVolumeFilterChange_def Let_def
      split: option.splits lfo_update.splits)

lemma gate_new: "gate_follows_voices (Synth_new settings)"
  by (simp add: gate_follows_voices_def Synth_new_def Let_def constructor_params_def)

text \<open>
  Claim C6. After every sequence of operations on a new synth (\<open>playNote\<close>, \<open>stopNote\<close>,
  \<open>stopAll\<close>, and the setters and updates as well), the gain of the noise gate is 1 if and
  only if the table of active voices is not empty, and it is 0 otherwise; every
  \<open>playNote\<close> leaves it at 1; a new synth has gate 0 and no voices.
\<close>

theorem noise_gate_iff_voices:
  "(params (run ops (Synth_new settings)) (Gain NoiseGate) = 1
      \<longleftrightarrow> activeVoices (run ops (Synth_new settings)) \<noteq> [])
   \<and> params (run ops (Synth_new settings)) (Gain NoiseGate) \<in> {0, 1}
   \<and> params (playNote e n t (run ops (Synth_new settings))) (Gain NoiseGate) = 1
   \<and> params (Synth_new settings) (Gain NoiseGate) = 0
   \<and> activeVoices (Synth_new settings) = []"
proof -
  have "gate_follows_voices (run ops (Synth_new settings))"
    by (rule run_invariant [OF gate_new gate_step])
  moreover have "gate_follows_voices (Synth_new settings)" by (rule gate_new)
  moreover have "activeVoices (Synth_new settings) = []" by (simp add: Synth_new_def Let_def)
  ultimately show ?thesis by (simp add: gate_follows_voices_def playNote_gate)
qed

theorem noise_gate_iff_voices_witness:
  "map fst (activeVoices (run retrigger_ops default_synth)) = [''C3'']
   \<and> params (run retrigger_ops default_synth) (Gain NoiseGate) = 1
   \<and> activeVoices (run (retrigger_ops @ [(quiet_env, StopAll)]) default_synth) = []
   \<and> params (run (retrigger_ops @ [(quiet_env, StopAll)]) default_synth) (Gain NoiseGate) = 0"
proof -
  have a: "map fst (activeVoices (run retrigger_ops default_synth)) = [''C3'']"
    by (simp add: retrigger_ops_def run_def playNote_activeVoices stopNote_activeVoices
        default_synth_frame)
  then have s: "activeVoices (stopAll quiet_env (run retrigger_ops default_synth)) = []"
    by (simp add: stopAll_def stopNote_activeVoices) (cases "activeVoices (run retrigger_ops default_synth)", auto)
  have b: "activeVoices (run (retrigger_ops @ [(quiet_env, StopAll)]) default_synth) = []"
    using s by (simp add: run_def)
  from a have c: "activeVoices (run retrigger_ops default_synth) \<noteq> []" by auto
  show ?thesis
    using noise_gate_iff_voices [of retrigger_ops "\<lparr>opt_speakersOn = None, opt_volume = None\<rparr>"
        quiet_env "''A4''" None]
      noise_gate_iff_voices [of "retrigger_ops @ [(quiet_env, StopAll)]"
        "\<lparr>opt_speakersOn = None, opt_volume = None\<rparr>" quiet_env "''A4''" None] a b c
    unfolding default_synth_def [symmetric] by auto
qed

subsection \<open>Retriggering\<close>

lemma playNote_next_node: "next_node (playNote e n t s) = next_node s + 9"
  by (simp add: playNote_def Let_def stopNote_frame)

lemma playNote_voice: "map_of (activeVoices (playNote e n t s)) n = Some (new_voice s n)"
  by (simp add: playNote_activeVoices AList.update_conv')

lemma new_voice_oscillators:
  "voice_oscillators (new_voice s n) = [next_node s, next_node s + 1, next_node s + 2]"
  by (simp add: new_voice_def slots_def osc_node_def)

lemma release_calls_stops:
  "osc \<in> set (voice_oscillators v) \<Longrightarrow>
   Stop (VoiceNode osc) (t + releaseTime v + 1 / 10) \<in> set (release_calls e t v)"
  by (simp add: release_calls_def)

lemma retrigger_calls:
  "\<exists>cs. calls (playNote e2 n t2 (playNote e1 n t1 s))
        = calls (playNote e1 n t1 s) @ release_calls e2 (currentTime e2) (new_voice s n) @ cs"
proof -
  let ?s1 = "playNote e1 n t1 s"
  have v: "map_of (activeVoices ?s1) n = Some (new_voice s n)" by (rule playNote_voice)
  obtain cs where "calls (playNote e2 n t2 ?s1) = calls (stopNote e2 n None ?s1) @ cs"
    using playNote_calls [of e2 n t2 ?s1] v by auto
  then show ?thesis
    by (simp add: stopNote_calls [OF v] nullish_def)
qed

text \<open>
  Claim C1. After every sequence of operations on a new synth, no key has more than one
  entry in the table of active voices. Calling \<open>playNote(n)\<close> twice in a row leaves exactly
  one entry for \<open>n\<close>; the second call is the same as stopping \<open>n\<close> with \<open>stopNote\<close> and then
  playing it; each of the three oscillators of the first voice has been told to stop at the
  second call's clock plus the first voice's release time plus 0.1 s; and the voice now in
  the table is a new one, with other oscillators.
\<close>

theorem one_voice_per_key:
  "(\<forall>k. voices_under k (run ops (Synth_new settings)) \<le> 1)
   \<and> voices_under n (playNote e2 n t2 (playNote e1 n t1 (run ops (Synth_new settings)))) = 1
   \<and> playNote e2 n t2 (playNote e1 n t1 (run ops (Synth_new settings)))
       = playNote e2 n t2 (stopNote e2 n None (playNote e1 n t1 (run ops (Synth_new settings))))
   \<and> map_of (activeVoices (playNote e1 n t1 (run ops (Synth_new settings)))) n
       = Some (new_voice (run ops (Synth_new settings)) n)
   \<and> length (voice_oscillators (new_voice (run ops (Synth_new settings)) n)) = 3
   \<and> list_all
        (\<lambda>osc. Stop (VoiceNode osc)
                  (currentTime e2 + releaseTime (new_voice (run ops (Synth_new settings)) n) + 1 / 10)
                \<in> set (calls (playNote e2 n t2 (playNote e1 n t1 (run ops (Synth_new settings))))))
        (voice_oscillators (new_voice (run ops (Synth_new settings)) n))
   \<and> map_of (activeVoices (playNote e2 n t2 (playNote e1 n t1 (run ops (Synth_new settings))))) n
       = Some (new_voice (playNote e1 n t1 (run ops (Synth_new settings))) n)
   \<and> set (voice_oscillators (new_voice (run ops (Synth_new settings)) n))
       \<inter> set (voice_oscillators (new_voice (playNote e1 n t1 (run ops (Synth_new settings))) n)) = {}"
proof -
  let ?s = "run ops (Synth_new settings)"
  let ?s1 = "playNote e1 n t1 ?s"
  let ?s2 = "playNote e2 n t2 ?s1"
  have d: "keys_distinct ?s" by (rule keys_distinct_run)
  have a: "\<forall>k. voices_under k ?s \<le> 1"
    using distinct_count_le [OF d [unfolded keys_distinct_def]] by (simp add: voices_under_def)
  have d1: "keys_distinct ?s1" using keys_distinct_step [OF d, of e1 "PlayNote n t1"] by simp
  have d2: "keys_distinct ?s2" using keys_distinct_step [OF d1, of e2 "PlayNote n t2"] by simp
  have b: "voices_under n ?s2 = 1"
    unfolding voices_under_def
    using d2 playNote_voice [of e2 n t2 ?s1]
    by (simp add: keys_distinct_def distinct_count_eq)
  have c: "?s2 = playNote e2 n t2 (stopNote e2 n None ?s1)" by (rule playNote_stops_first)
  obtain cs where cs: "calls ?s2 = calls ?s1 @ release_calls e2 (currentTime e2) (new_voice ?s n) @ cs"
    using retrigger_calls [of e2 n t2 e1 t1 ?s] by blast
  have f: "list_all
        (\<lambda>osc. Stop (VoiceNode osc) (currentTime e2 + releaseTime (new_voice ?s n) + 1 / 10)
                \<in> set (calls ?s2))
        (voice_oscillators (new_voice ?s n))"
    unfolding list_all_iff cs using release_calls_stops [of _ "new_voice ?s n" "currentTime e2" e2]
    by simp
  have g: "set (voice_oscillators (new_voice ?s n)) \<inter> set (voice_oscillators (new_voice ?s1 n)) = {}"
    by (simp add: new_voice_oscillators playNote_next_node)
  show ?thesis
    using a b c f g playNote_voice [of e1 n t1 ?s] playNote_voice [of e2 n t2 ?s1]
    by (simp add: new_voice_oscillators)
qed

theorem one_voice_per_key_witness:
  "voices_under ''A4'' (playNote quiet_env ''A4'' (Some 1) (playNote quiet_env ''A4'' None default_synth)) = 1
   \<and> voice_oscillators (new_voice default_synth ''A4'') = [0, 1, 2]
   \<and> Stop (VoiceNode 0) (4 / 10)
       \<in> set (calls (playNote quiet_env ''A4'' (Some 1) (playNote quiet_env ''A4'' None default_synth)))
   \<and> Stop (VoiceNode 1) (4 / 10)
       \<in> set (calls (playNote quiet_env ''A4'' (Some 1) (playNote quiet_env ''A4'' None default_synth)))
   \<and> Stop (VoiceNode 2) (4 / 10)
       \<in> set (calls (playNote quiet_env ''A4'' (Some 1) (playNote quiet_env ''A4'' None default_synth)))
   \<and> voice_oscillators (new_voice (playNote quiet_env ''A4'' None default_synth) ''A4'') = [9, 10, 11]"
proof -
  have r: "run [] (Synth_new \<lparr>opt_speakersOn = None, opt_volume = None\<rparr>) = default_synth"
    by (simp add: run_def default_synth_def)
  have o: "voice_oscillators (new_voice default_synth ''A4'') = [0, 1, 2]"
    "releaseTime (new_voice default_synth ''A4'') = 3 / 10"
    by (simp_all add: new_voice_def slots_def osc_node_def default_synth_frame
        default_volumeEnvelopeSettings_def)
  have p: "voice_oscillators (new_voice (playNote quiet_env ''A4'' None default_synth) ''A4'') = [9, 10, 11]"
    by (simp add: new_voice_oscillators playNote_next_node default_synth_frame)
  have ct: "currentTime quiet_env = 0" by (simp add: quiet_env_def)
  note t = one_voice_per_key [of "[]" "\<lparr>opt_speakersOn = None, opt_volume = None\<rparr>"
        "''A4''" quiet_env "Some 1" quiet_env None, unfolded r]
  from t have a: "voices_under ''A4''
      (playNote quiet_env ''A4'' (Some 1) (playNote quiet_env ''A4'' None default_synth)) = 1"
    by (elim conjE)
  from t have "list_all
      (\<lambda>osc. Stop (VoiceNode osc)
                (currentTime quiet_env + releaseTime (new_voice default_synth ''A4'') + 1 / 10)
              \<in> set (calls (playNote quiet_env ''A4'' (Some 1)
                               (playNote quiet_env ''A4'' None default_synth))))
      (voice_oscillators (new_voice default_synth ''A4''))"
    by (elim conjE)
  then have b: "list_all
      (\<lambda>osc. Stop (VoiceNode osc) (4 / 10)
              \<in> set (calls (playNote quiet_env ''A4'' (Some 1)
                               (playNote quiet_env ''A4'' None default_synth))))
      [0, 1, 2]"
    unfolding o ct by simp
  show ?thesis
    using a b o(1) p by simp
qed

subsection \<open>Contour\<close>

lemma cutoff_step: "cutoff_is_maxLevel s \<Longrightarrow> cutoff_is_maxLevel (step (e, op) s)"
proof (cases op)
  case (PlayNote n t)
  assume "cutoff_is_maxLevel s"
  then show ?thesis by (simp add: PlayNote cutoff_is_maxLevel_def playNote_frame)
next
  case (StopNote n t)
  assume "cutoff_is_maxLevel s"
  then show ?thesis by (simp add: StopNote cutoff_is_maxLevel_def stopNote_frame)
next
  case StopAll
  assume "cutoff_is_maxLevel s"
  then have "cutoff_is_maxLevel (stopAll e s)"
    by (rule stopAll_invariant [rotated]) (simp add: cutoff_is_maxLevel_def stopNote_frame)
  then show ?thesis by (simp add: StopAll)
qed (simp_all add: cutoff_is_maxLevel_def setVolume_def setNoiseLevel_def
      setNoiseFilterFrequency_def setNoiseFilterQ_def setFilterType_def updateOscillator_def
      updateMixer_def updateLFO_def handleFilterChange_def handleVolumeFilterChange_def Let_def
      split: option.splits osc_update.splits lfo_update.splits)

lemma cutoff_new: "cutoff_is_maxLevel (Synth_new settings)"
  by (simp add: cutoff_is_maxLevel_def Synth_new_def Let_def default_filterEnvelopeSettings_def)

lemma voice_envelopes_stopNote:
  "voice_volumeEnvelope (stopNote e' n t s) b i = voice_volumeEnvelope s b i"
  "voice_filterEnvelope (stopNote e' n t s) b i = voice_filterEnvelope s b i"
  by (simp_all add: stopNote_frame voice_volumeEnvelope_def voice_filterEnvelope_def
      filterEnvelopeOptions_def)

lemma chain_calls_stopNote:
  "chain_calls e (stopNote e' n t s) st b ik = chain_calls e s st b ik"
  by (cases ik) (simp add: chain_calls_def stopNote_frame voice_envelopes_stopNote Let_def)

lemma playNote_calls_tail:
  "\<exists>pre mid. calls (playNote e n t s)
     = pre @ concat (map (chain_calls e s (nullish t (currentTime e)) (next_node s)) slots)
       @ mid @ trigger e (Some (nullish t (currentTime e))) (voice_filterEnvelope s (next_node s) 0)"
proof -
  let ?s1 = "if map_of (activeVoices s) n \<noteq> None then stopNote e n None s else s"
  have n: "next_node ?s1 = next_node s" by (simp add: stopNote_frame)
  have c: "chain_calls e ?s1 = chain_calls e s"
    by (auto simp: fun_eq_iff chain_calls_stopNote)
  have v: "new_voice ?s1 n = new_voice s n" by (simp add: new_voice_stopNote)
  have "calls (playNote e n t s)
     = (calls ?s1 @ createOscillators_calls ?s1 (fst (noteToFrequency n)) (next_node s))
       @ concat (map (chain_calls e s (nullish t (currentTime e)) (next_node s)) slots)
       @ (connectLFOToVoice (voice_oscillators (new_voice s n)) (filters (new_voice s n))
          @ trigger e (Some (nullish t (currentTime e))) (volumeEnvelope (new_voice s n)))
       @ trigger e (Some (nullish t (currentTime e))) (voice_filterEnvelope s (next_node s) 0)"
    unfolding playNote_def Let_def n c v by (simp add: new_voice_def)
  then show ?thesis by blast
qed

lemma filter_envelope_maxLevel:
  "env_maxLevel (voice_filterEnvelope s base i)
   = nullish (startLevel (filterEnvelopeSettings s)) 200
     + (nullish (maxLevel (filterEnvelopeSettings s)) 10000
        - nullish (startLevel (filterEnvelopeSettings s)) 200) * contour (filterEnvelopeSettings s)"
  by (simp add: voice_filterEnvelope_def connect_def Envelope_new_def filterEnvelopeOptions_def
      Let_def nullish_def)

lemma filter_trigger_member:
  "ExponentialRampToValueAtTime (Frequency (VoiceNode (filter_node b i)))
      (max (env_maxLevel (voice_filterEnvelope s b i)) (1 / 10000))
      (max st (currentTime e) + max (attack (filterEnvelopeSettings s)) (1 / 1000))
   \<in> set (trigger e (Some st) (voice_filterEnvelope s b i))"
  by (simp add: trigger_def voice_filterEnvelope_def connect_def Envelope_new_def
      filterEnvelopeOptions_def Let_def nullish_def)

lemma chain_trigger_member:
  assumes "(i, k) \<in> set slots" and "i \<noteq> 0"
  shows "ExponentialRampToValueAtTime (Frequency (VoiceNode (filter_node b i)))
      (max (env_maxLevel (voice_filterEnvelope s b i)) (1 / 10000))
      (max st (currentTime e) + max (attack (filterEnvelopeSettings s)) (1 / 1000))
   \<in> set (concat (map (chain_calls e s st b) slots))"
proof -
  have "ExponentialRampToValueAtTime (Frequency (VoiceNode (filter_node b i)))
      (max (env_maxLevel (voice_filterEnvelope s b i)) (1 / 10000))
      (max st (currentTime e) + max (attack (filterEnvelopeSettings s)) (1 / 1000))
   \<in> set (chain_calls e s st b (i, k))"
    using assms(2) filter_trigger_member [of b i s st e] by (simp add: chain_calls_def Let_def)
  then show ?thesis using assms(1) by auto
qed

lemma playNote_filter_ramps:
  assumes "i \<in> {0, 1, 2}"
  shows "ExponentialRampToValueAtTime (Frequency (VoiceNode (filter_node (next_node s) i)))
      (max (env_maxLevel (voice_filterEnvelope s (next_node s) i)) (1 / 10000))
      (max (nullish t (currentTime e)) (currentTime e)
       + max (attack (filterEnvelopeSettings s)) (1 / 1000))
   \<in> set (calls (playNote e n t s))"
proof -
  obtain pre mid where eq: "calls (playNote e n t s)
     = pre @ concat (map (chain_calls e s (nullish t (currentTime e)) (next_node s)) slots)
       @ mid @ trigger e (Some (nullish t (currentTime e))) (voice_filterEnvelope s (next_node s) 0)"
    using playNote_calls_tail by blast
  show ?thesis
  proof (cases "i = 0")
    case True
    show ?thesis unfolding eq True
      using filter_trigger_member [of "next_node s" 0 s "nullish t (currentTime e)" e] by simp
  next
    case False
    then obtain k where "(i, k) \<in> set slots" using assms by (auto simp: slots_def)
    from chain_trigger_member [OF this False, of "next_node s" s "nullish t (currentTime e)" e]
    show ?thesis unfolding eq by simp
  qed
qed

text \<open>
  Claim C4. In every state that a sequence of operations reaches from a new synth,
  \<open>playNote\<close> builds each of the three filter envelopes of the new voice with the max level
  \<open>startLevel + (cutoffFrequency - startLevel) * contour\<close> of the filter envelope settings
  at that moment: the attack ramp of each of the three filter frequencies ends at that level
  (floored at \<open>1e-4\<close>), and the stored voice has it. Changing the cutoff afterwards leaves
  the voice, its max level and the scheduled calls as they are.
\<close>

theorem filter_envelope_contour:
  fixes ops settings e n t x
  defines "s \<equiv> run ops (Synth_new settings)"
  defines "fs \<equiv> filterEnvelopeSettings s"
  defines "start \<equiv> nullish (startLevel fs) 200"
  defines "scaledMax \<equiv> start + (cutoffFrequency fs - start) * contour fs"
  shows "(\<forall>i base. env_maxLevel (voice_filterEnvelope s base i) = scaledMax)
    \<and> list_all
        (\<lambda>i. ExponentialRampToValueAtTime (Frequency (VoiceNode (filter_node (next_node s) i)))
                (max scaledMax (1 / 10000))
                (max (nullish t (currentTime e)) (currentTime e) + max (attack fs) (1 / 1000))
              \<in> set (calls (playNote e n t s)))
        [0, 1, 2]
    \<and> map_option (\<lambda>v. env_maxLevel (filterEnvelope v)) (map_of (activeVoices (playNote e n t s)) n)
        = Some scaledMax
    \<and> map_option (\<lambda>v. env_maxLevel (filterEnvelope v))
        (map_of (activeVoices (handleFilterChange ''cutoffFrequency'' x (playNote e n t s))) n)
        = Some scaledMax
    \<and> calls (handleFilterChange ''cutoffFrequency'' x (playNote e n t s)) = calls (playNote e n t s)
    \<and> cutoffFrequency (filterEnvelopeSettings
          (handleFilterChange ''cutoffFrequency'' x (playNote e n t s))) = x"
proof -
  have inv: "cutoff_is_maxLevel s"
    unfolding s_def by (rule run_invariant [OF cutoff_new cutoff_step])
  have m: "env_maxLevel (voice_filterEnvelope s base i) = scaledMax" for base i
    using inv unfolding filter_envelope_maxLevel scaledMax_def start_def fs_def
    by (simp add: cutoff_is_maxLevel_def nullish_def)
  have r: "list_all
        (\<lambda>i. ExponentialRampToValueAtTime (Frequency (VoiceNode (filter_node (next_node s) i)))
                (max scaledMax (1 / 10000))
                (max (nullish t (currentTime e)) (currentTime e) + max (attack fs) (1 / 1000))
              \<in> set (calls (playNote e n t s)))
        [0, 1, 2]"
    using playNote_filter_ramps [of 0 s t e n] playNote_filter_ramps [of 1 s t e n]
      playNote_filter_ramps [of 2 s t e n]
    unfolding m fs_def by simp
  have v: "map_of (activeVoices (playNote e n t s)) n = Some (new_voice s n)"
    by (rule playNote_voice)
  have fv: "filterEnvelope (new_voice s n) = voice_filterEnvelope s (next_node s) 0"
    by (simp add: new_voice_def)
  show ?thesis
    using m r v fv
    by (simp add: other_ops_activeVoices handleFilterChange_def Let_def)
qed

theorem filter_envelope_contour_witness:
  "cutoffFrequency (filterEnvelopeSettings (run contour_ops default_synth)) = 5000
   \<and> contour (filterEnvelopeSettings (run contour_ops default_synth)) = 1 / 2
   \<and> startLevel (filterEnvelopeSettings (run contour_ops default_synth)) = Some 200
   \<and> env_maxLevel (voice_filterEnvelope (run contour_ops default_synth) 0 2) = 2600
   \<and> ExponentialRampToValueAtTime (Frequency (VoiceNode 4)) 2600 (1 / 10)
       \<in> set (calls (playNote quiet_env ''A4'' None (run contour_ops default_synth)))
   \<and> ExponentialRampToValueAtTime (Frequency (VoiceNode 6)) 2600 (1 / 10)
       \<in> set (calls (playNote quiet_env ''A4'' None (run contour_ops default_synth)))
   \<and> ExponentialRampToValueAtTime (Frequency (VoiceNode 8)) 2600 (1 / 10)
       \<in> set (calls (playNote quiet_env ''A4'' None (run contour_ops default_synth)))
   \<and> map_option (\<lambda>v. env_maxLevel (filterEnvelope v))
        (map_of (activeVoices (handleFilterChange ''cutoffFrequency'' 800
           (playNote quiet_env ''A4'' None (run contour_ops default_synth)))) ''A4'') = Some 2600"
proof -
  have f: "filterEnvelopeSettings (run contour_ops default_synth)
           = default_filterEnvelopeSettings\<lparr>maxLevel := Some 5000, cutoffFrequency := 5000, contour := 1 / 2\<rparr>"
    "next_node (run contour_ops default_synth) = 0"
    by (simp_all add: contour_ops_def run_def handleFilterChange_def Let_def default_synth_frame)
  show ?thesis
    using filter_envelope_contour [of contour_ops "\<lparr>opt_speakersOn = None, opt_volume = None\<rparr>"
        None quiet_env "''A4''" 800]
    unfolding default_synth_def [symmetric] f
    by (simp add: default_filterEnvelopeSettings_def filter_node_def quiet_env_def nullish_def)
qed

subsection \<open>Release\<close>

lemma untouched_step:
  "\<not> touches n op \<Longrightarrow> map_of (activeVoices (step (e, op) s)) n = map_of (activeVoices s) n"
  by (cases op)
     (simp_all add: playNote_activeVoices stopNote_activeVoices other_ops_activeVoices
        AList.update_conv' AList.delete_conv')

lemma untouched_run:
  "list_all (\<lambda>(e, op). \<not> touches n op) ops \<Longrightarrow>
   map_of (activeVoices (run ops s)) n = map_of (activeVoices s) n"
  unfolding run_def
proof (induction ops arbitrary: s)
  case Nil
  then show ?case by simp
next
  case (Cons x ops)
  obtain e op where x: "x = (e, op)" by (cases x)
  from Cons.prems have h: "\<not> touches n op" and t: "list_all (\<lambda>(e, op). \<not> touches n op) ops"
    by (simp_all add: x)
  show ?case using Cons.IH [OF t, of "step (e, op) s"] untouched_step [OF h, of e s]
    by (simp add: x)
qed

lemma release_calls_new_voice:
  "release_calls e stopTime (new_voice s n) =
     [CancelScheduledValues (Gain (VoiceNode (next_node s + 3))) (max stopTime (currentTime e)),
      SetValueAtTime (Gain (VoiceNode (next_node s + 3)))
        (max (paramValue e (Gain (VoiceNode (next_node s + 3)))) (1 / 10000))
        (max stopTime (currentTime e)),
      ExponentialRampToValueAtTime (Gain (VoiceNode (next_node s + 3)))
        (max (nullish (startLevel (volumeEnvelopeSettings s)) 0) (1 / 10000))
        (max stopTime (currentTime e) + max (release (volumeEnvelopeSettings s)) (1 / 1000)),
      CancelScheduledValues (Frequency (VoiceNode (next_node s + 4))) (max stopTime (currentTime e)),
      SetValueAtTime (Frequency (VoiceNode (next_node s + 4)))
        (max (paramValue e (Frequency (VoiceNode (next_node s + 4)))) (1 / 10000))
        (max stopTime (currentTime e)),
      ExponentialRampToValueAtTime (Frequency (VoiceNode (next_node s + 4)))
        (max (nullish (startLevel (filterEnvelopeSettings s)) 200) (1 / 10000))
        (max stopTime (currentTime e) + max (release (filterEnvelopeSettings s)) (1 / 1000))]
     @ concat (map (\<lambda>g.
          [CancelScheduledValues (Gain (VoiceNode g)) stopTime,
           SetValueAtTime (Gain (VoiceNode g)) (paramValue e (Gain (VoiceNode g))) stopTime,
           LinearRampToValueAtTime (Gain (VoiceNode g)) 0
             (stopTime + release (volumeEnvelopeSettings s))])
          [next_node s + 3, next_node s + 5, next_node s + 7])
     @ map (\<lambda>osc. Stop (VoiceNode osc) (stopTime + release (volumeEnvelopeSettings s) + 1 / 10))
          [next_node s, next_node s + 1, next_node s + 2]"
  by (simp add: release_calls_def new_voice_def triggerRelease_def voice_volumeEnvelope_def
      voice_filterEnvelope_def connect_def Envelope_new_def filterEnvelopeOptions_def
      slots_def osc_node_def gain_node_def filter_node_def Let_def nullish_def add.commute)

lemma stopNote_emitted:
  "map_of (activeVoices s) n = Some v \<Longrightarrow>
   drop (length (calls s)) (calls (stopNote e n t s)) = release_calls e (nullish t (currentTime e)) v"
  by (simp add: stopNote_calls)

text \<open>
  Claim C3, as stated, fails. With a volume release setting of 0 and the default filter
  release of 1 s, \<open>playNote\<close> and then \<open>stopNote\<close> at time 0 schedule the release ramp of the
  volume envelope to end at 1 ms and that of the filter envelope at 1 s: neither lasts the
  release setting of 0 that the voice stored.
\<close>

theorem release_duration_counterexample:
  "release (volumeEnvelopeSettings zero_release_synth) = 0
   \<and> release (filterEnvelopeSettings zero_release_synth) = 1
   \<and> currentTime quiet_env = 0
   \<and> exponential_ramp_ends
       (drop (length (calls (playNote quiet_env ''A4'' None zero_release_synth)))
          (calls (stopNote quiet_env ''A4'' None
             (playNote quiet_env ''A4'' None zero_release_synth))))
     = [(Gain (VoiceNode 3), 1 / 1000), (Frequency (VoiceNode 4), 1)]"
proof -
  have v: "map_of (activeVoices (playNote quiet_env ''A4'' None zero_release_synth)) ''A4''
           = Some (new_voice zero_release_synth ''A4'')"
    by (rule playNote_voice)
  have s: "release (volumeEnvelopeSettings zero_release_synth) = 0"
    "release (filterEnvelopeSettings zero_release_synth) = 1"
    "next_node zero_release_synth = 0"
    by (simp_all add: zero_release_synth_def handleVolumeFilterChange_def default_synth_def
        Synth_new_def Let_def default_filterEnvelopeSettings_def)
  show ?thesis
    unfolding stopNote_emitted [OF v] release_calls_new_voice
    by (simp add: s quiet_env_def nullish_def)
qed

text \<open>
  Claim C3, amended. Let a voice for \<open>n\<close> be created by \<open>playNote\<close> in state \<open>s\<close>, followed by
  any operations that do not play or stop \<open>n\<close> (among them any change of the settings).
  Then \<open>stopNote\<close> schedules exactly: the release of the voice's volume envelope over
  \<open>max(release, 1ms)\<close> of the volume settings of \<open>s\<close>; the release of its filter envelope
  over \<open>max(release, 1ms)\<close> of the filter settings of \<open>s\<close>; for each of the three gain
  nodes a linear fade to 0 lasting the volume release of \<open>s\<close>; and the stop of each
  oscillator at the stop time plus the volume release of \<open>s\<close> plus 0.1 s.
\<close>

theorem release_captured_at_playNote:
  fixes s :: Synth and ops n e0 t0 e t
  assumes "list_all (\<lambda>(e', op). \<not> touches n op) ops"
  defines "vs \<equiv> volumeEnvelopeSettings s"
  defines "fs \<equiv> filterEnvelopeSettings s"
  defines "b \<equiv> next_node s"
  defines "s' \<equiv> run ops (playNote e0 n t0 s)"
  defines "stopTime \<equiv> nullish t (currentTime e)"
  shows "calls (stopNote e n t s') = calls s' @
     [CancelScheduledValues (Gain (VoiceNode (b + 3))) (max stopTime (currentTime e)),
      SetValueAtTime (Gain (VoiceNode (b + 3)))
        (max (paramValue e (Gain (VoiceNode (b + 3)))) (1 / 10000))
        (max stopTime (currentTime e)),
      ExponentialRampToValueAtTime (Gain (VoiceNode (b + 3)))
        (max (nullish (startLevel vs) 0) (1 / 10000))
        (max stopTime (currentTime e) + max (release vs) (1 / 1000)),
      CancelScheduledValues (Frequency (VoiceNode (b + 4))) (max stopTime (currentTime e)),
      SetValueAtTime (Frequency (VoiceNode (b + 4)))
        (max (paramValue e (Frequency (VoiceNode (b + 4)))) (1 / 10000))
        (max stopTime (currentTime e)),
      ExponentialRampToValueAtTime (Frequency (VoiceNode (b + 4)))
        (max (nullish (startLevel fs) 200) (1 / 10000))
        (max stopTime (currentTime e) + max (release fs) (1 / 1000))]
     @ concat (map (\<lambda>g.
          [CancelScheduledValues (Gain (VoiceNode g)) stopTime,
           SetValueAtTime (Gain (VoiceNode g)) (paramValue e (Gain (VoiceNode g))) stopTime,
           LinearRampToValueAtTime (Gain (VoiceNode g)) 0 (stopTime + release vs)])
          [b + 3, b + 5, b + 7])
     @ map (\<lambda>osc. Stop (VoiceNode osc) (stopTime + release vs + 1 / 10)) [b, b + 1, b + 2]"
proof -
  have "map_of (activeVoices s') n = Some (new_voice s n)"
    unfolding s'_def untouched_run [OF assms(1)] by (rule playNote_voice)
  from stopNote_calls [OF this, of e t] show ?thesis
    unfolding release_calls_new_voice vs_def fs_def b_def stopTime_def .
qed

theorem release_captured_at_playNote_witness:
  "list_all (\<lambda>(e', op). \<not> touches ''A4'' op) later_ops
   \<and> release (volumeEnvelopeSettings (run later_ops (playNote quiet_env ''A4'' None default_synth))) = 5
   \<and> release (filterEnvelopeSettings (run later_ops (playNote quiet_env ''A4'' None default_synth))) = 4
   \<and> drop (length (calls (run later_ops (playNote quiet_env ''A4'' None default_synth))))
       (calls (stopNote quiet_env ''A4'' (Some 2)
          (run later_ops (playNote quiet_env ''A4'' None default_synth))))
     = [CancelScheduledValues (Gain (VoiceNode 3)) 2,
        SetValueAtTime (Gain (VoiceNode 3)) (1 / 10000) 2,
        ExponentialRampToValueAtTime (Gain (VoiceNode 3)) (1 / 10000) (23 / 10),
        CancelScheduledValues (Frequency (VoiceNode 4)) 2,
        SetValueAtTime (Frequency (VoiceNode 4)) (1 / 10000) 2,
        ExponentialRampToValueAtTime (Frequency (VoiceNode 4)) 200 3,
        CancelScheduledValues (Gain (VoiceNode 3)) 2,
        SetValueAtTime (Gain (VoiceNode 3)) 0 2,
        LinearRampToValueAtTime (Gain (VoiceNode 3)) 0 (23 / 10),
        CancelScheduledValues (Gain (VoiceNode 5)) 2,
        SetValueAtTime (Gain (VoiceNode 5)) 0 2,
        LinearRampToValueAtTime (Gain (VoiceNode 5)) 0 (23 / 10),
        CancelScheduledValues (Gain (VoiceNode 7)) 2,
        SetValueAtTime (Gain (VoiceNode 7)) 0 2,
        LinearRampToValueAtTime (Gain (VoiceNode 7)) 0 (23 / 10),
        Stop (VoiceNode 0) (24 / 10), Stop (VoiceNode 1) (24 / 10), Stop (VoiceNode 2) (24 / 10)]"
proof -
  have h: "list_all (\<lambda>(e', op). \<not> touches ''A4'' op) later_ops"
    by (simp add: later_ops_def)
  have d: "volumeEnvelopeSettings default_synth = default_volumeEnvelopeSettings"
    "filterEnvelopeSettings default_synth = default_filterEnvelopeSettings"
    "next_node default_synth = 0"
    by (simp_all add: default_synth_def Synth_new_def Let_def)
  have r: "release (volumeEnvelopeSettings (run later_ops (playNote quiet_env ''A4'' None default_synth))) = 5"
    "release (filterEnvelopeSettings (run later_ops (playNote quiet_env ''A4'' None default_synth))) = 4"
    by (simp_all add: later_ops_def run_def playNote_frame handleVolumeFilterChange_def
        handleFilterChange_def Let_def)
  show ?thesis
    using release_captured_at_playNote [OF h, of quiet_env "Some 2" quiet_env None default_synth] h r
    by (simp add: d default_volumeEnvelopeSettings_def default_filterEnvelopeSettings_def
        quiet_env_def nullish_def)
qed

subsection \<open>Exponential ramps\<close>

lemma floored_Nil: "floored []"
  by (simp add: floored_def)

lemma floored_append: "floored (xs @ ys) \<longleftrightarrow> floored xs \<and> floored ys"
  by (simp add: floored_def)

lemma floored_concat: "(\<And>x. x \<in> set xs \<Longrightarrow> floored (f x)) \<Longrightarrow> floored (concat (map f xs))"
  by (induction xs) (simp_all add: floored_Nil floored_append)

lemma floored_trigger: "floored (trigger e t env)"
  using trigger_endpoints [of e t env] by (simp add: floored_def list_all_iff)

lemma floored_triggerRelease: "floored (snd (triggerRelease e t env))"
  using triggerRelease_endpoints [of e t env] by (simp add: floored_def list_all_iff)

lemma floored_release_calls: "floored (release_calls e t v)"
proof -
  have "floored (concat (map (\<lambda>g.
          [CancelScheduledValues (Gain (VoiceNode g)) t,
           SetValueAtTime (Gain (VoiceNode g)) (paramValue e (Gain (VoiceNode g))) t,
           LinearRampToValueAtTime (Gain (VoiceNode g)) 0 (t + releaseTime v)])
          (gainNodes v)))"
    by (rule floored_concat) (simp add: floored_def)
  moreover have "floored (map (\<lambda>osc. Stop (VoiceNode osc) (t + releaseTime v + 1 / 10))
          (voice_oscillators v))"
    using floored_concat [of "voice_oscillators v"
        "\<lambda>osc. [Stop (VoiceNode osc) (t + releaseTime v + 1 / 10)]"]
    by (simp add: floored_def concat_map_singleton)
  ultimately show ?thesis
    unfolding release_calls_def floored_append
    using floored_triggerRelease by simp
qed

lemma ramps_stopNote: "ramps_floored s \<Longrightarrow> ramps_floored (stopNote e n t s)"
  using floored_release_calls
  by (auto simp: ramps_floored_def floored_append stopNote_def Let_def split: option.splits)

lemma floored_chain_calls: "floored (chain_calls e s st b ik)"
proof -
  obtain i k where ik: "ik = (i, k)" by (cases ik)
  have "floored (if i = 0 then []
              else trigger e (Some st) (voice_volumeEnvelope s b i)
                   @ trigger e (Some st) (voice_filterEnvelope s b i))"
    by (simp add: floored_Nil floored_append floored_trigger)
  then show ?thesis
    unfolding ik chain_calls_def Let_def floored_def by simp
qed

lemma floored_createOscillators: "floored (createOscillators_calls s f b)"
  by (simp add: floored_def createOscillators_calls_def slots_def)

lemma floored_connectLFO: "floored (connectLFOToVoice oscs fls)"
proof -
  have "exponential_endpoints (map (\<lambda>x. ConnectParam a (g x)) xs) = []" for a g and xs :: "nat list"
    by (induction xs) simp_all
  then show ?thesis by (simp add: floored_def connectLFOToVoice_def)
qed

lemma ramps_playNote:
  assumes "ramps_floored s"
  shows "ramps_floored (playNote e n t s)"
proof -
  let ?s1 = "if map_of (activeVoices s) n \<noteq> None then stopNote e n None s else s"
  have s1: "floored (calls ?s1)" using assms ramps_stopNote [OF assms, of e n None]
    by (simp add: ramps_floored_def)
  have c: "floored (concat (map (chain_calls e ?s1 (nullish t (currentTime e)) (next_node ?s1)) slots))"
    by (rule floored_concat) (rule floored_chain_calls)
  show ?thesis
    unfolding ramps_floored_def playNote_def Let_def
    using s1 c by (simp add: floored_append floored_createOscillators floored_connectLFO floored_trigger)
qed

lemma ramps_step: "ramps_floored s \<Longrightarrow> ramps_floored (step (e, op) s)"
proof (cases op)
  case (PlayNote n t)
  assume "ramps_floored s"
  then show ?thesis by (simp add: PlayNote ramps_playNote)
next
  case (StopNote n t)
  assume "ramps_floored s"
  then show ?thesis by (simp add: StopNote ramps_stopNote)
next
  case StopAll
  assume "ramps_floored s"
  then have "ramps_floored (stopAll e s)"
    by (rule stopAll_invariant [rotated]) (rule ramps_stopNote)
  then show ?thesis by (simp add: StopAll)
qed (simp_all add: ramps_floored_def floored_def setVolume_def setNoiseLevel_def
      setNoiseFilterFrequency_def setNoiseFilterQ_def setFilterType_def updateOscillator_def
      updateMixer_def updateLFO_def handleFilterChange_def handleVolumeFilterChange_def Let_def
      split: option.splits osc_update.splits lfo_update.splits)

lemma ramps_new: "ramps_floored (Synth_new settings)"
  by (simp add: ramps_floored_def floored_def Synth_new_def Let_def constructor_calls_def)

lemma ramps_run: "ramps_floored (run ops (Synth_new settings))"
  by (rule run_invariant [OF ramps_new ramps_step])

text \<open>
  Claim C2. For every sequence of \<open>connect\<close>, \<open>trigger\<close>, \<open>triggerRelease\<close> and \<open>update\<close>
  calls on an envelope with any settings, at any clock readings and parameter values, every
  value passed as the endpoint of an exponential ramp is at least \<open>1e-4\<close>, and so is never
  0. The same holds of every exponential ramp the synth schedules in any sequence of its
  operations.
\<close>

theorem exponential_ramp_floor:
  "(\<forall>v \<in> set (exponential_endpoints (snd (envelope_run cs env))). 1 / 10000 \<le> v \<and> v \<noteq> 0)
   \<and> (\<forall>v \<in> set (exponential_endpoints (calls (run ops (Synth_new settings)))).
         1 / 10000 \<le> v \<and> v \<noteq> 0)"
proof -
  have "\<forall>v \<in> set (exponential_endpoints (snd (envelope_run cs env))). 1 / 10000 \<le> v"
    unfolding envelope_run_def by (rule fold_envelope_step_endpoints) simp
  moreover have "\<forall>v \<in> set (exponential_endpoints (calls (run ops (Synth_new settings)))).
      1 / 10000 \<le> v"
    using ramps_run [of ops settings] by (simp add: ramps_floored_def floored_def list_all_iff)
  ultimately show ?thesis by fastforce
qed

theorem exponential_ramp_floor_witness:
  "(1 / 10000 :: real) \<in> set (exponential_endpoints (snd (envelope_run
      [(quiet_env, CallConnect (Gain (VoiceNode 0))), (quiet_env, CallTrigger None),
       (quiet_env, CallTriggerRelease None)] zero_envelope)))
   \<and> (1 / 10000 :: real) \<in> set (exponential_endpoints (calls (run
      [(quiet_env, PlayNote ''A4'' None), (quiet_env, StopNote ''A4'' None)]
      (Synth_new \<lparr>opt_speakersOn = None, opt_volume = None\<rparr>))))
   \<and> (1 / 10000 :: real) \<le> 1 / 10000 \<and> (1 / 10000 :: real) \<noteq> 0"
proof -
  let ?cs = "[(quiet_env, CallConnect (Gain (VoiceNode 0))), (quiet_env, CallTrigger None),
       (quiet_env, CallTriggerRelease None)]"
  let ?ops = "[(quiet_env, PlayNote ''A4'' None), (quiet_env, StopNote ''A4'' None)]"
  let ?st = "\<lparr>opt_speakersOn = None, opt_volume = None\<rparr>"
  have "exponential_endpoints (snd (envelope_run ?cs zero_envelope))
            = [1 / 10000, 1 / 10000, 1 / 10000]"
    by (simp add: envelope_run_def zero_envelope_def quiet_env_def Envelope_new_def connect_def
        trigger_def triggerRelease_def nullish_def Let_def)
  then have m: "(1 / 10000 :: real) \<in> set (exponential_endpoints (snd (envelope_run ?cs zero_envelope)))"
    by simp
  have v: "map_of (activeVoices (playNote quiet_env ''A4'' None default_synth)) ''A4''
           = Some (new_voice default_synth ''A4'')"
    by (rule playNote_voice)
  have "calls (run ?ops (Synth_new ?st))
        = calls (playNote quiet_env ''A4'' None default_synth)
          @ release_calls quiet_env (nullish None (currentTime quiet_env)) (new_voice default_synth ''A4'')"
    using stopNote_calls [OF v, of quiet_env None] by (simp add: run_def default_synth_def)
  then have n: "(1 / 10000 :: real) \<in> set (exponential_endpoints (calls (run ?ops (Synth_new ?st))))"
    by (simp add: release_calls_new_voice default_synth_frame default_volumeEnvelopeSettings_def
        nullish_def)
  from exponential_ramp_floor [of ?cs zero_envelope ?ops ?st] m n show ?thesis by blast
qed

end
